theory Spec2Isabelle
  imports Main
begin

section \<open>JavaScript string primitives used by the routes\<close>

text \<open>
  Strings are lists of code units; the model covers the code units below 256 (Latin-1).
  \<open>trim\<close> removes the white space and line terminators of ECMAScript that lie in that
  range, \<open>toLowerCase\<close> maps the upper-case letters of that range.
\<close>

definition isWhiteSpace :: "char \<Rightarrow> bool" where
  "isWhiteSpace c = (of_char c \<in> {9, 10, 11, 12, 13, 32, 160 :: nat})"

definition trimStart :: "string \<Rightarrow> string" where
  "trimStart s = dropWhile isWhiteSpace s"

definition trimEnd :: "string \<Rightarrow> string" where
  "trimEnd s = rev (dropWhile isWhiteSpace (rev s))"

definition trim :: "string \<Rightarrow> string" where
  "trim s = trimEnd (trimStart s)"

definition lowerChar :: "char \<Rightarrow> char" where
  "lowerChar c =
     (let n = of_char c :: nat
      in if (65 \<le> n \<and> n \<le> 90) \<or> (192 \<le> n \<and> n \<le> 222 \<and> n \<noteq> 215)
         then char_of (n + 32) else c)"

definition toLowerCase :: "string \<Rightarrow> string" where
  "toLowerCase s = map lowerChar s"

definition startsWith :: "string \<Rightarrow> string \<Rightarrow> bool" where
  "startsWith s p = (take (length p) s = p)"

text \<open>\<open>s.includes(t)\<close>: \<open>t\<close> occurs in \<open>s\<close> as a contiguous substring.\<close>

fun includes_str :: "string \<Rightarrow> string \<Rightarrow> bool" where
  "includes_str [] t = (t = [])"
| "includes_str (c # cs) t = (startsWith (c # cs) t \<or> includes_str cs t)"

text \<open>\<open>s.split(sep)\<close> for a one-character separator; the result is never empty.\<close>

fun split :: "char \<Rightarrow> string \<Rightarrow> string list" where
  "split sep [] = [[]]"
| "split sep (c # cs) =
     (if c = sep then [] # split sep cs
      else (case split sep cs of
              [] \<Rightarrow> [[c]]
            | seg # rest \<Rightarrow> (c # seg) # rest))"

text \<open>\<open>xs.pop()\<close> read as a value: the last element, \<open>undefined\<close> on an empty array.\<close>

definition pop :: "'a list \<Rightarrow> 'a option" where
  "pop xs = (if xs = [] then None else Some (last xs))"

text \<open>\<open>x || ""\<close> on a possibly undefined string.\<close>

definition orEmpty :: "string option \<Rightarrow> string" where
  "orEmpty v = (case v of None \<Rightarrow> [] | Some s \<Rightarrow> s)"


text \<open>\<open>String(n)\<close> of a non-negative integer: its decimal digits.\<close>

definition digitChar :: "nat \<Rightarrow> char" where
  "digitChar d = char_of (48 + d)"

fun String_of_nat :: "nat \<Rightarrow> string" where
  "String_of_nat n =
     (if n < 10 then [digitChar n]
      else String_of_nat (n div 10) @ [digitChar (n mod 10)])"

text \<open>\<open>xs.find(p)\<close> is \<^const>\<open>find\<close>; \<open>xs.findIndex(p)\<close> returns \<open>-1\<close> for no match.\<close>

fun findIndex :: "('a \<Rightarrow> bool) \<Rightarrow> 'a list \<Rightarrow> nat option" where
  "findIndex p [] = None"
| "findIndex p (x # xs) =
     (if p x then Some 0 else map_option Suc (findIndex p xs))"

text \<open>\<open>xs.join(sep)\<close>.\<close>

fun join :: "string \<Rightarrow> string list \<Rightarrow> string" where
  "join sep [] = []"
| "join sep [x] = x"
| "join sep (x # y # ys) = x @ sep @ join sep (y # ys)"

section \<open>Data model\<close>

text \<open>
  Every store is one JSON file holding an array. A read of the file finds it absent
  (\<open>ENOENT\<close>, the one failure the routes tell apart), finds text that \<open>JSON.parse\<close>
  rejects, or finds the array. A write replaces the file and succeeds.
\<close>

datatype 'a jsonFile = Missing | Corrupt | Content "'a list"

text \<open>
  A timestamp is stored as the ISO string of \<open>new Date().toISOString()\<close> and read back with
  \<open>new Date(s).getTime()\<close>; the two are inverse at millisecond precision, and the model keeps
  the instant itself, in milliseconds since the epoch. A string field that is absent from
  the JSON object is the empty string (the routes read such fields through \<open>|| ""\<close> or
  \<open>!field\<close>), an absent \<open>checkedIn\<close> is \<open>False\<close> (it is only tested for truth).
\<close>

record attendee =
  a_id :: string
  a_firstName :: string
  a_lastName :: string
  a_name :: string
  a_email :: string
  a_company :: string
  a_eventId :: "string option"
  a_createdAt :: nat
  a_checkedIn :: bool
  a_checkedInAt :: "nat option"

record tokenRecord =
  t_email :: string
  t_token :: string
  t_expiresAt :: nat

record lead =
  l_id :: nat
  l_eventId :: string
  l_attendeeId :: string
  l_attendeeName :: string
  l_attendeeEmail :: string
  l_exhibitor :: string
  l_notes :: string
  l_timestamp :: nat

record scanLog =
  s_id :: nat
  s_attendeeId :: string
  s_attendeeName :: string
  s_attendeeEmail :: string
  s_method :: string
  s_timestamp :: nat

text \<open>The files under \<open>data/\<close> that the routes below read and write.\<close>

record store =
  attendeesFile :: "attendee jsonFile"
  tokensFile :: "tokenRecord jsonFile"
  leadsFile :: "lead jsonFile"
  scanLogFile :: "scanLog jsonFile"

text \<open>
  A response is \<open>NextResponse.json(body, {status})\<close>: either a body of the route's own
  shape, or \<open>{error: message}\<close>. \<open>res.ok\<close> holds for the statuses 200 to 299.
\<close>

datatype 'a response = Reply nat 'a | Error nat string

fun status :: "'a response \<Rightarrow> nat" where
  "status (Reply st b) = st"
| "status (Error st m) = st"

definition ok :: "'a response \<Rightarrow> bool" where
  "ok r = (200 \<le> status r \<and> status r \<le> 299)"

section \<open>Registration: \<open>POST /api/register\<close>\<close>

record registerBody =
  r_firstName :: string
  r_lastName :: string
  r_email :: string
  r_company :: string

text \<open>\<open>readAttendees\<close>: an absent file is the empty array, any other failure is rethrown.\<close>

definition readAttendees :: "attendee jsonFile \<Rightarrow> attendee list option" where
  "readAttendees f =
     (case f of Missing \<Rightarrow> Some [] | Corrupt \<Rightarrow> None | Content xs \<Rightarrow> Some xs)"

text \<open>\<open>String(email).trim().toLowerCase()\<close>, the form in which emails are compared and stored.\<close>

definition normalizeEmail :: "string \<Rightarrow> string" where
  "normalizeEmail e = toLowerCase (trim e)"

text \<open>
  \<open>now\<close> is the value of \<open>Date.now()\<close> that becomes the id, \<open>stamp\<close> the instant of the
  \<open>new Date()\<close> that becomes \<open>createdAt\<close>.
\<close>

definition POST_register ::
  "nat \<Rightarrow> nat \<Rightarrow> registerBody \<Rightarrow> store \<Rightarrow> (attendee \<times> string) response \<times> store" where
  "POST_register now stamp body s =
     (if r_firstName body = [] \<or> r_lastName body = [] \<or> r_email body = []
      then (Error 400 ''firstName, lastName, and email are required'', s)
      else (case readAttendees (attendeesFile s) of
              None \<Rightarrow> (Error 500 ''Server error while registering attendee'', s)
            | Some attendees \<Rightarrow>
                (let normalizedEmail = normalizeEmail (r_email body)
                 in (case find (\<lambda>a. normalizeEmail (a_email a) = normalizedEmail) attendees of
                       Some duplicate \<Rightarrow>
                         (Error 409 ''An attendee with this email is already registered.'', s)
                     | None \<Rightarrow>
                         (let ident = String_of_nat now;
                              newAttendee = \<lparr> a_id = ident,
                                a_firstName = r_firstName body,
                                a_lastName = r_lastName body,
                                a_name = [],
                                a_email = normalizedEmail,
                                a_company = r_company body,
                                a_eventId = None,
                                a_createdAt = stamp,
                                a_checkedIn = False,
                                a_checkedInAt = None \<rparr>;
                              qrValue = ''hemisphere:'' @ ident
                          in (Reply 201 (newAttendee, qrValue),
                              s\<lparr>attendeesFile := Content (attendees @ [newAttendee])\<rparr>))))))"

section \<open>Attendees: \<open>GET /api/attendees\<close>, \<open>GET\<close> and \<open>PATCH /api/attendees/[id]\<close>\<close>

text \<open>
  The list is sorted newest first, by \<open>new Date(b.createdAt) - new Date(a.createdAt)\<close>.
  Every attendee of the model has a \<open>createdAt\<close>, as every attendee that registration
  writes, so the comparator never takes its \<open>return 0\<close> for a missing one and is a
  consistent order. \<open>Array.prototype.sort\<close> is stable: attendees with the same
  \<open>createdAt\<close> keep their order in the file, as with \<^const>\<open>sort_key\<close>.
\<close>

definition sortNewestFirst :: "attendee list \<Rightarrow> attendee list" where
  "sortNewestFirst xs = sort_key (\<lambda>a. - int (a_createdAt a)) xs"

definition GET_attendees :: "store \<Rightarrow> attendee list response" where
  "GET_attendees s =
     (case attendeesFile s of
        Content attendees \<Rightarrow> Reply 200 (sortNewestFirst attendees)
      | Missing \<Rightarrow> Reply 200 []
      | Corrupt \<Rightarrow> Error 500 ''Error reading attendees'')"

text \<open>\<open>String(rawId || "").split(":").pop()\<close>\<close>

definition idOfParam :: "string \<Rightarrow> string" where
  "idOfParam rawId = orEmpty (pop (split CHR '':'' rawId))"

definition fullNameOf :: "attendee \<Rightarrow> string" where
  "fullNameOf a = trim (a_firstName a @ '' '' @ a_lastName a)"

text \<open>\<open>{...attendee, name: fullName || attendee.name || ""}\<close>\<close>

definition withName :: "attendee \<Rightarrow> attendee" where
  "withName a = a\<lparr>a_name := (if fullNameOf a \<noteq> [] then fullNameOf a else a_name a)\<rparr>"

definition GET_attendee :: "string \<Rightarrow> store \<Rightarrow> attendee response" where
  "GET_attendee rawId s =
     (let ident = idOfParam rawId
      in (case attendeesFile s of
            Content attendees \<Rightarrow>
              (case find (\<lambda>a. a_id a = ident) attendees of
                 None \<Rightarrow> Error 404 ''Attendee not found''
               | Some attendee \<Rightarrow> Reply 200 (withName attendee))
          | _ \<Rightarrow> Error 500 ''Error reading attendee''))"

text \<open>
  The payload of a \<open>PATCH\<close>: of all its keys the route reads these five, and a key is
  applied when the payload has it (\<open>hasOwnProperty\<close>).
\<close>

record patchPayload =
  p_firstName :: "string option"
  p_lastName :: "string option"
  p_email :: "string option"
  p_company :: "string option"
  p_eventId :: "string option"

definition applyPatch :: "patchPayload \<Rightarrow> attendee \<Rightarrow> attendee" where
  "applyPatch payload current =
     (let u1 = (case p_firstName payload of None \<Rightarrow> current | Some v \<Rightarrow> current\<lparr>a_firstName := v\<rparr>);
          u2 = (case p_lastName payload of None \<Rightarrow> u1 | Some v \<Rightarrow> u1\<lparr>a_lastName := v\<rparr>);
          u3 = (case p_email payload of None \<Rightarrow> u2 | Some v \<Rightarrow> u2\<lparr>a_email := v\<rparr>);
          u4 = (case p_company payload of None \<Rightarrow> u3 | Some v \<Rightarrow> u3\<lparr>a_company := v\<rparr>);
          u5 = (case p_eventId payload of None \<Rightarrow> u4 | Some v \<Rightarrow> u4\<lparr>a_eventId := Some v\<rparr>)
      in u5)"

definition PATCH_attendee ::
  "string \<Rightarrow> patchPayload \<Rightarrow> store \<Rightarrow> attendee response \<times> store" where
  "PATCH_attendee rawId payload s =
     (let ident = idOfParam rawId
      in (case attendeesFile s of
            Content attendees \<Rightarrow>
              (case findIndex (\<lambda>a. a_id a = ident) attendees of
                 None \<Rightarrow> (Error 404 ''Attendee not found'', s)
               | Some index \<Rightarrow>
                   (let updated = applyPatch payload (attendees ! index)
                    in (Reply 200 (withName updated),
                        s\<lparr>attendeesFile := Content (attendees[index := updated])\<rparr>)))
          | _ \<Rightarrow> (Error 500 ''Error updating attendee'', s)))"

section \<open>Check-in: \<open>POST /api/checkin\<close>\<close>

text \<open>The body \<open>{id, checkedIn = true}\<close>: an absent \<open>checkedIn\<close> defaults to true.\<close>

record checkinBody =
  c_id :: string
  c_checkedIn :: "bool option"

definition POST_checkin :: "nat \<Rightarrow> checkinBody \<Rightarrow> store \<Rightarrow> attendee response \<times> store" where
  "POST_checkin stamp body s =
     (let checkedIn = (case c_checkedIn body of None \<Rightarrow> True | Some b \<Rightarrow> b)
      in (case attendeesFile s of
            Content attendees \<Rightarrow>
              (case findIndex (\<lambda>a. a_id a = c_id body) attendees of
                 None \<Rightarrow> (Error 404 ''Attendee not found'', s)
               | Some index \<Rightarrow>
                   (let a = attendees ! index;
                        a' = (if checkedIn
                              then a\<lparr>a_checkedIn := True, a_checkedInAt := Some stamp\<rparr>
                              else a\<lparr>a_checkedIn := False, a_checkedInAt := None\<rparr>)
                    in (Reply 200 a', s\<lparr>attendeesFile := Content (attendees[index := a'])\<rparr>)))
          | _ \<Rightarrow> (Error 500 ''Error saving check-in'', s)))"

section \<open>Scan log: \<open>GET\<close> and \<open>POST /api/scanlog\<close>, \<open>GET /api/scanlog/export\<close>\<close>

record scanLogBody =
  sb_attendeeId :: string
  sb_attendeeName :: string
  sb_attendeeEmail :: string
  sb_method :: string

definition GET_scanlog :: "store \<Rightarrow> scanLog list response" where
  "GET_scanlog s =
     (case scanLogFile s of
        Content logs \<Rightarrow> Reply 200 logs
      | _ \<Rightarrow> Error 500 ''Cannot read scan logs'')"

text \<open>\<open>now\<close> is the \<open>Date.now()\<close> of the entry's id, \<open>stamp\<close> the instant of its timestamp.\<close>

definition POST_scanlog ::
  "nat \<Rightarrow> nat \<Rightarrow> scanLogBody \<Rightarrow> store \<Rightarrow> scanLog response \<times> store" where
  "POST_scanlog now stamp body s =
     (let method = (if sb_method body = [] then ''scan'' else sb_method body)
      in (case scanLogFile s of
            Content logs \<Rightarrow>
              (let newLog = \<lparr> s_id = now,
                     s_attendeeId = sb_attendeeId body,
                     s_attendeeName = sb_attendeeName body,
                     s_attendeeEmail = sb_attendeeEmail body,
                     s_method = method,
                     s_timestamp = stamp \<rparr>
               in (Reply 200 newLog, s\<lparr>scanLogFile := Content (logs @ [newLog])\<rparr>))
          | _ \<Rightarrow> (Error 500 ''Unable to save scan'', s)))"

definition headers :: "string list" where
  "headers = [''id'', ''attendeeId'', ''attendeeName'', ''attendeeEmail'', ''timestamp'']"

text \<open>\<open>str.replace(/"/g, '""')\<close>: every double quote becomes two.\<close>

definition escapeQuotes :: "string \<Rightarrow> string" where
  "escapeQuotes str = concat (map (\<lambda>c. if c = CHR 0x22 then [CHR 0x22, CHR 0x22] else [c]) str)"

definition csvCell :: "string \<Rightarrow> string" where
  "csvCell str = (let escaped = escapeQuotes str in [CHR 0x22] @ escaped @ [CHR 0x22])"

text \<open>
  The five values of a row, each through \<open>String(value)\<close>. The timestamp in the file is
  the ISO string of the instant; its rendering \<open>toISOString\<close> is a parameter of the export.
\<close>

definition rowValues :: "(nat \<Rightarrow> string) \<Rightarrow> scanLog \<Rightarrow> string list" where
  "rowValues toISOString log =
     [String_of_nat (s_id log), s_attendeeId log, s_attendeeName log, s_attendeeEmail log,
      toISOString (s_timestamp log)]"

definition csvRow :: "(nat \<Rightarrow> string) \<Rightarrow> scanLog \<Rightarrow> string" where
  "csvRow toISOString log = join '','' (map csvCell (rowValues toISOString log))"

definition csvLines :: "(nat \<Rightarrow> string) \<Rightarrow> scanLog list \<Rightarrow> string list" where
  "csvLines toISOString logs = join '','' headers # map (csvRow toISOString) logs"

text \<open>The export reads the file itself: an absent file and unparsable text both give \<open>[]\<close>.\<close>

definition exportLogs :: "scanLog jsonFile \<Rightarrow> scanLog list" where
  "exportLogs f = (case f of Content logs \<Rightarrow> logs | _ \<Rightarrow> [])"

definition GET_scanlog_export :: "(nat \<Rightarrow> string) \<Rightarrow> store \<Rightarrow> string response" where
  "GET_scanlog_export toISOString s =
     Reply 200 (join [CHR 0x0A] (csvLines toISOString (exportLogs (scanLogFile s))))"

section \<open>Leads: \<open>GET\<close> and \<open>POST /api/leads\<close>\<close>

text \<open>A request as the routes see it: the \<open>authorization\<close> header and the value of
  \<open>request.json()\<close>.\<close>

record 'b request =
  authorization :: "string option"
  json :: 'b

record leadBody =
  lb_eventId :: string
  lb_attendeeId :: string
  lb_attendeeName :: string
  lb_attendeeEmail :: string
  lb_exhibitor :: string
  lb_notes :: string

text \<open>\<open>readLeadsFile\<close>: any failure of the read or the parse gives \<open>[]\<close>.\<close>

definition readLeadsFile :: "lead jsonFile \<Rightarrow> lead list" where
  "readLeadsFile f = (case f of Content leads \<Rightarrow> leads | _ \<Rightarrow> [])"

definition GET_leads :: "store \<Rightarrow> lead list response" where
  "GET_leads s = Reply 200 (readLeadsFile (leadsFile s))"

definition POST_leads ::
  "nat \<Rightarrow> nat \<Rightarrow> leadBody request \<Rightarrow> store \<Rightarrow> lead response \<times> store" where
  "POST_leads now stamp req s =
     (let b = json req;
          leads = readLeadsFile (leadsFile s);
          newLead = \<lparr> l_id = now,
            l_eventId = (if lb_eventId b = [] then ''unknown_event'' else lb_eventId b),
            l_attendeeId = lb_attendeeId b,
            l_attendeeName = lb_attendeeName b,
            l_attendeeEmail = lb_attendeeEmail b,
            l_exhibitor = (if lb_exhibitor b = [] then ''Unknown Exhibitor'' else lb_exhibitor b),
            l_notes = lb_notes b,
            l_timestamp = stamp \<rparr>
      in (Reply 201 newLead, s\<lparr>leadsFile := Content (leads @ [newLead])\<rparr>))"

section \<open>Exhibitor portal: \<open>POST /api/exhibitors/request-link\<close>, \<open>GET /api/exhibitors/leads\<close>\<close>

definition readTokens :: "tokenRecord jsonFile \<Rightarrow> tokenRecord list option" where
  "readTokens f =
     (case f of Missing \<Rightarrow> Some [] | Corrupt \<Rightarrow> None | Content xs \<Rightarrow> Some xs)"


record linkReply =
  loginUrl :: string
  expiresAt :: nat
  email :: string

text \<open>\<open>now\<close> is the route's one \<open>Date.now()\<close>, \<open>uuid\<close> the result of \<open>crypto.randomUUID()\<close>.\<close>

definition POST_request_link ::
  "nat \<Rightarrow> string \<Rightarrow> string \<Rightarrow> store \<Rightarrow> linkReply response \<times> store" where
  "POST_request_link now uuid emailField s =
     (let normalizedEmail = toLowerCase (trim emailField)
      in if normalizedEmail = []
         then (Error 400 ''Email is required to request a login link.'', s)
         else (case readTokens (tokensFile s) of
                 None \<Rightarrow> (Error 500 ''Error issuing login link'', s)
               | Some tokens \<Rightarrow>
                   (let validTokens = filter (\<lambda>t. t_expiresAt t > now) tokens;
                        token = uuid;
                        expires = now + 60 * 60 * 1000;
                        written = validTokens @
                          [\<lparr> t_email = normalizedEmail, t_token = token, t_expiresAt = expires \<rparr>]
                    in (Reply 200 \<lparr> loginUrl = ''/exhibitors?token='' @ token,
                                     expiresAt = expires,
                                     email = normalizedEmail \<rparr>,
                        s\<lparr>tokensFile := Content written\<rparr>))))"




section \<open>The scanner page: \<open>handleScanResult\<close> and \<open>handleManualCheckin\<close>\<close>

datatype scanState = Idle | Scanning | Found | ErrorState

text \<open>The React state of the page that the two handlers set.\<close>

record ui =
  scanState :: scanState
  message :: string
  lastValue :: string
  lastMethod :: string
  attendee :: "attendee option"
  isScanningEnabled :: bool

text \<open>
  The instants the server reads while it serves the requests of one handler run: the
  \<open>new Date()\<close> of \<open>/api/checkin\<close>, and the \<open>Date.now()\<close> and \<open>new Date()\<close> of
  \<open>/api/scanlog\<close>.
\<close>

record clock =
  atCheckin :: nat
  atLogId :: nat
  atLogStamp :: nat

text \<open>\<open>found.name || `${found.firstName || ""} ${found.lastName || ""}`.trim() || "Attendee"\<close>\<close>

definition displayNameOf :: "attendee \<Rightarrow> string" where
  "displayNameOf found =
     (if a_name found \<noteq> [] then a_name found
      else if fullNameOf found \<noteq> [] then fullNameOf found
      else ''Attendee'')"

definition logBody :: "attendee \<Rightarrow> string \<Rightarrow> string \<Rightarrow> scanLogBody" where
  "logBody found displayName method =
     \<lparr> sb_attendeeId = a_id found, sb_attendeeName = displayName,
       sb_attendeeEmail = a_email found, sb_method = method \<rparr>"

text \<open>
  The lookup of \<open>handleScanResult\<close>: the attendee route first and, when that does not
  answer with an attendee, the list route. \<open>encodeURIComponent\<close> and the router's decoding
  of the path segment are inverse, so the route receives \<open>ident\<close>.
\<close>

definition lookupById :: "string \<Rightarrow> store \<Rightarrow> attendee option" where
  "lookupById ident s =
     (let res = GET_attendee ident s;
          found = (case res of Reply st a \<Rightarrow> (if ok res then Some a else None)
                   | Error st m \<Rightarrow> None)
      in (case found of
            Some a \<Rightarrow> Some a
          | None \<Rightarrow>
              (let listRes = GET_attendees s
               in (case listRes of
                     Reply st all \<Rightarrow>
                       (if ok listRes then find (\<lambda>a. a_id a = ident) all else None)
                   | Error st m \<Rightarrow> None))))"

text \<open>
  Neither handler looks at the responses of \<open>/api/checkin\<close> and \<open>/api/scanlog\<close>; a failed
  request there changes nothing in the store and the handler goes on. The second
  \<open>if (!found)\<close> of \<open>handleScanResult\<close> comes after the first has returned and is never
  entered. A \<open>fetch\<close> that throws (no network) is outside the model.
\<close>

definition handleScanResult :: "clock \<Rightarrow> string \<Rightarrow> ui \<Rightarrow> store \<Rightarrow> ui \<times> store" where
  "handleScanResult clk raw u s =
     (let u1 = u\<lparr>isScanningEnabled := False, lastValue := raw, lastMethod := ''scan''\<rparr>;
          trimmed = trim raw;
          normalized = (if startsWith (toLowerCase trimmed) ''hemisphere:''
                        then trimmed else ''hemisphere:'' @ trimmed);
          ident = orEmpty (pop (split CHR '':'' normalized))
      in if ident = []
         then (u1\<lparr>scanState := ErrorState,
                  message := ''Could not read attendee ID from code: '' @ [CHR 0x22] @ raw @ [CHR 0x22],
                  attendee := None\<rparr>, s)
         else (case lookupById ident s of
                 None \<Rightarrow>
                   (u1\<lparr>scanState := ErrorState,
                       message := ''No attendee found for ID '' @ ident @ ''.'',
                       attendee := None\<rparr>, s)
               | Some found \<Rightarrow>
                   (let displayName = displayNameOf found
                    in if a_checkedIn found
                       then (u1\<lparr>attendee := Some (found\<lparr>a_name := displayName\<rparr>),
                                scanState := Found,
                                message := ''Already checked in: '' @ displayName\<rparr>,
                             snd (POST_scanlog (atLogId clk) (atLogStamp clk)
                                    (logBody found displayName ''scan'') s))
                       else (let s1 = snd (POST_checkin (atCheckin clk)
                                             \<lparr> c_id = ident, c_checkedIn = Some True \<rparr> s);
                                 s2 = snd (POST_scanlog (atLogId clk) (atLogStamp clk)
                                             (logBody found displayName ''scan'') s1)
                             in (u1\<lparr>attendee := Some (found\<lparr>a_name := displayName\<rparr>),
                                    scanState := Found,
                                    message := ''Checked in: '' @ displayName\<rparr>, s2)))))"

text \<open>The test of the manual search: the lower-cased name contains the lower-cased term.\<close>

definition nameMatches :: "string \<Rightarrow> attendee \<Rightarrow> bool" where
  "nameMatches lower a = includes_str (toLowerCase (fullNameOf a)) lower"

definition handleManualCheckin :: "clock \<Rightarrow> string \<Rightarrow> ui \<Rightarrow> store \<Rightarrow> ui \<times> store" where
  "handleManualCheckin clk manualName u s =
     (let term = trim manualName
      in if term = []
         then (u\<lparr>message := ''Please type a name before checking in manually.''\<rparr>, s)
         else
          (let u1 = u\<lparr>isScanningEnabled := False, lastValue := term, lastMethod := ''manual'',
                      scanState := Scanning, attendee := None,
                      message := ''Searching for '' @ [CHR 0x22] @ term @ [CHR 0x22] @ ''...''\<rparr>;
               res = GET_attendees s
           in (case res of
                 Error st m \<Rightarrow>
                   (u1\<lparr>scanState := ErrorState,
                       message := ''Could not load attendees. Try again.''\<rparr>, s)
               | Reply st list \<Rightarrow>
                   (if \<not> ok res
                    then (u1\<lparr>scanState := ErrorState,
                             message := ''Could not load attendees. Try again.''\<rparr>, s)
                    else
                     (let lower = toLowerCase term
                      in (case find (nameMatches lower) list of
                            None \<Rightarrow>
                              (u1\<lparr>scanState := ErrorState,
                                  message := ''No attendee found matching '' @ [CHR 0x22] @ term
                                             @ [CHR 0x22] @ ''.''\<rparr>, s)
                          | Some found \<Rightarrow>
                              (let displayName = displayNameOf found
                               in if a_checkedIn found
                                  then (u1\<lparr>attendee := Some (found\<lparr>a_name := displayName\<rparr>),
                                           scanState := Found,
                                           message := ''Already checked in: '' @ displayName\<rparr>,
                                        snd (POST_scanlog (atLogId clk) (atLogStamp clk)
                                               (logBody found displayName ''manual'') s))
                                  else (let s1 = snd (POST_checkin (atCheckin clk)
                                                        \<lparr> c_id = a_id found, c_checkedIn = Some True \<rparr> s);
                                            s2 = snd (POST_scanlog (atLogId clk) (atLogStamp clk)
                                                        (logBody found displayName ''manual'') s1)
                                        in (u1\<lparr>attendee := Some (found\<lparr>a_name := displayName\<rparr>),
                                               scanState := Found,
                                               message := ''Checked in (manual): '' @ displayName\<rparr>,
                                            s2)))))))))"

text \<open>Scanning the same code once for every clock of a list, the store threaded through.\<close>

fun scanRepeatedly :: "clock list \<Rightarrow> string \<Rightarrow> ui \<Rightarrow> store \<Rightarrow> ui \<times> store" where
  "scanRepeatedly [] raw u s = (u, s)"
| "scanRepeatedly (clk # clks) raw u s =
     (case handleScanResult clk raw u s of (u', s') \<Rightarrow> scanRepeatedly clks raw u' s')"

section \<open>Example data\<close>

text \<open>The attendee of the specification's end-to-end example, in a store of her own.\<close>

definition exAda :: attendee where
  "exAda = \<lparr> a_id = ''1700000000000'', a_firstName = ''Ada'', a_lastName = ''Lovelace'',
     a_name = [], a_email = ''ada@x.com'', a_company = [], a_eventId = None,
     a_createdAt = 1700000000000, a_checkedIn = False, a_checkedInAt = None \<rparr>"

definition exStore :: store where
  "exStore = \<lparr> attendeesFile = Content [exAda], tokensFile = Missing, leadsFile = Missing,
     scanLogFile = Content [] \<rparr>"

definition exUi :: ui where
  "exUi = \<lparr> scanState = Scanning, message = [], lastValue = [], lastMethod = [],
     attendee = None, isScanningEnabled = True \<rparr>"

text \<open>A store of two attendees, the older one first in the file.\<close>

definition exGrace :: attendee where
  "exGrace = \<lparr> a_id = ''1699999999999'', a_firstName = ''Grace'', a_lastName = ''Hopper'',
     a_name = [], a_email = ''grace@x.com'', a_company = [], a_eventId = None,
     a_createdAt = 1699999999999, a_checkedIn = False, a_checkedInAt = None \<rparr>"

definition exTwoStore :: store where
  "exTwoStore = \<lparr> attendeesFile = Content [exGrace, exAda], tokensFile = Missing,
     leadsFile = Missing, scanLogFile = Content [] \<rparr>"

definition exBlankName :: registerBody where
  "exBlankName = \<lparr> r_firstName = [], r_lastName = ''Lovelace'', r_email = '' Ada@X.com '',
     r_company = [] \<rparr>"

definition exAdaAgain :: registerBody where
  "exAdaAgain = \<lparr> r_firstName = ''Ada'', r_lastName = ''Lovelace'', r_email = '' Ada@X.com '',
     r_company = [] \<rparr>"

definition exEmpty :: store where
  "exEmpty = \<lparr> attendeesFile = Missing, tokensFile = Missing, leadsFile = Missing,
     scanLogFile = Missing \<rparr>"

definition exAdaRequest :: registerBody where
  "exAdaRequest = \<lparr> r_firstName = ''Ada'', r_lastName = ''Lovelace'', r_email = ''ada@x.com'',
     r_company = [] \<rparr>"

definition exBobRequest :: registerBody where
  "exBobRequest = \<lparr> r_firstName = ''Bob'', r_lastName = ''Byte'', r_email = ''bob@x.com'',
     r_company = [] \<rparr>"

definition exBob :: attendee where
  "exBob = \<lparr> a_id = ''1700000000000'', a_firstName = ''Bob'', a_lastName = ''Byte'',
     a_name = [], a_email = ''bob@x.com'', a_company = [], a_eventId = None,
     a_createdAt = 1700000000000, a_checkedIn = False, a_checkedInAt = None \<rparr>"

definition exExpiredToken :: tokenRecord where
  "exExpiredToken = \<lparr> t_email = ''booth@acme.example'', t_token = ''tok-1'',
     t_expiresAt = 1700000000000 \<rparr>"

definition exLiveToken :: tokenRecord where
  "exLiveToken = \<lparr> t_email = ''stand@beta.example'', t_token = ''tok-2'',
     t_expiresAt = 1700000000006 \<rparr>"

definition exTokenStore :: store where
  "exTokenStore = \<lparr> attendeesFile = Content [exAda], tokensFile = Content [exExpiredToken],
     leadsFile = Content [], scanLogFile = Content [] \<rparr>"

definition exLeadBody :: leadBody where
  "exLeadBody = \<lparr> lb_eventId = ''evt_demo_001'', lb_attendeeId = ''1700000000000'',
     lb_attendeeName = ''Ada Lovelace'', lb_attendeeEmail = ''ada@x.com'',
     lb_exhibitor = ''Acme'', lb_notes = [] \<rparr>"

definition exLead :: lead where
  "exLead = \<lparr> l_id = 1700000000005, l_eventId = ''evt_demo_001'',
     l_attendeeId = ''1700000000000'', l_attendeeName = ''Ada Lovelace'',
     l_attendeeEmail = ''ada@x.com'', l_exhibitor = ''Acme'', l_notes = [],
     l_timestamp = 1700000000005 \<rparr>"

definition exScanBody :: scanLogBody where
  "exScanBody = \<lparr> sb_attendeeId = ''1700000000000'', sb_attendeeName = ''Ada Lovelace'',
     sb_attendeeEmail = ''ada@x.com'', sb_method = ''scan'' \<rparr>"

definition exLogs :: "scanLog list" where
  "exLogs =
     [\<lparr> s_id = 1700000000006, s_attendeeId = ''1700000000000'',
        s_attendeeName = ''Ada Lovelace'', s_attendeeEmail = ''ada@x.com'',
        s_method = ''scan'', s_timestamp = 1700000000007 \<rparr>,
      \<lparr> s_id = 1700000000016, s_attendeeId = ''1700000000001'',
        s_attendeeName = ''O'' @ [CHR 0x22] @ ''Brien'', s_attendeeEmail = ''ob@x.com'',
        s_method = ''manual'', s_timestamp = 1700000000017 \<rparr>]"

definition exISO :: "nat \<Rightarrow> string" where
  "exISO t = (if t = 1700000000007 then ''2023-11-14T22:13:20.007Z''
              else ''2023-11-14T22:13:20.017Z'')"

section \<open>Reading a quoted CSV field\<close>

text \<open>
  The inverse that the CSV format gives to the doubling of quotes, used to state what the
  export's escaping achieves: inside a quoted field two double quotes stand for one, and a
  double quote on its own does not occur.
\<close>

fun unescapeQuotes :: "string \<Rightarrow> string option" where
  "unescapeQuotes [] = Some []"
| "unescapeQuotes [c] = (if c = CHR 0x22 then None else Some [c])"
| "unescapeQuotes (c # d # cs) =
     (if c = CHR 0x22
      then (if d = CHR 0x22 then map_option ((#) c) (unescapeQuotes cs) else None)
      else map_option ((#) c) (unescapeQuotes (d # cs)))"

section \<open>Facts about the string primitives and the array searches\<close>

declare String_of_nat.simps [simp del]

lemma split_not_Nil: "split sep s \<noteq> []"
  by (induction s) (auto split: list.splits)

lemma split_no_sep: "sep \<notin> set s \<Longrightarrow> split sep s = [s]"
  by (induction s) auto

lemma split_single: "split sep s = [x] \<Longrightarrow> sep \<notin> set s"
  by (induction s arbitrary: x) (auto simp: split_not_Nil split: if_splits list.splits)

lemma last_split_Cons:
  "last (split sep (a # s)) = (if a \<noteq> sep \<and> sep \<notin> set s then a # s else last (split sep s))"
  by (auto simp: split_not_Nil split_no_sep split: list.splits dest: split_single)

lemma last_split_append: "last (split sep (p @ sep # t)) = last (split sep t)"
  by (induction p) (simp_all add: last_split_Cons split_not_Nil del: split.simps)

lemma pop_split_prefixed: "sep \<notin> set t \<Longrightarrow> pop (split sep (p @ sep # t)) = Some t"
  by (simp add: pop_def split_not_Nil last_split_append split_no_sep)

lemma pop_split_plain: "sep \<notin> set t \<Longrightarrow> pop (split sep t) = Some t"
  by (simp add: pop_def split_no_sep)

lemma split_segment: "sep \<notin> set x \<Longrightarrow> split sep (x @ sep # rest) = x # split sep rest"
  by (induction x) (auto simp: split_not_Nil split: list.splits)

lemma set_join: "set (join sep xs) \<subseteq> set sep \<union> (\<Union>x\<in>set xs. set x)"
  by (induction sep xs rule: join.induct) auto

lemma split_join:
  "xs \<noteq> [] \<Longrightarrow> \<forall>x\<in>set xs. sep \<notin> set x \<Longrightarrow> split sep (join [sep] xs) = xs"
proof (induction "[sep]" xs rule: join.induct)
  case 1
  then show ?case by simp
next
  case (2 x)
  then show ?case by (simp add: split_no_sep)
next
  case (3 x y ys)
  then show ?case by (simp add: split_segment del: split.simps)
qed

lemma trimEnd_id: "s \<noteq> [] \<Longrightarrow> \<not> isWhiteSpace (last s) \<Longrightarrow> trimEnd s = s"
  by (cases s rule: rev_cases) (auto simp: trimEnd_def)

lemma trimStart_id: "s \<noteq> [] \<Longrightarrow> \<not> isWhiteSpace (hd s) \<Longrightarrow> trimStart s = s"
  by (cases s) (auto simp: trimStart_def)

lemma startsWith_iff: "startsWith s t \<longleftrightarrow> (\<exists>q. s = t @ q)"
proof
  assume "startsWith s t"
  then have "s = t @ drop (length t) s"
    unfolding startsWith_def by (metis append_take_drop_id)
  then show "\<exists>q. s = t @ q" ..
next
  assume "\<exists>q. s = t @ q"
  then show "startsWith s t" by (auto simp: startsWith_def)
qed

text \<open>\<open>includes\<close> is the substring test.\<close>

lemma includes_str_iff: "includes_str s t \<longleftrightarrow> (\<exists>p q. s = p @ t @ q)"
proof (induction s)
  case Nil
  then show ?case by auto
next
  case (Cons c cs)
  show ?case
  proof
    assume "includes_str (c # cs) t"
    then consider "startsWith (c # cs) t" | "includes_str cs t" by auto
    then show "\<exists>p q. c # cs = p @ t @ q"
    proof cases
      case 1
      then obtain q where "c # cs = t @ q" using startsWith_iff by blast
      then have "c # cs = [] @ t @ q" by simp
      then show ?thesis by blast
    next
      case 2
      then obtain p q where "cs = p @ t @ q" using Cons.IH by blast
      then have "c # cs = (c # p) @ t @ q" by simp
      then show ?thesis by blast
    qed
  next
    assume "\<exists>p q. c # cs = p @ t @ q"
    then obtain p q where pq: "c # cs = p @ t @ q" by blast
    show "includes_str (c # cs) t"
    proof (cases p)
      case Nil
      then have "startsWith (c # cs) t" using pq startsWith_iff by auto
      then show ?thesis by simp
    next
      case (Cons d p')
      then have "cs = p' @ t @ q" using pq by simp
      then have "includes_str cs t" using Cons.IH by blast
      then show ?thesis by simp
    qed
  qed
qed

lemma findIndex_Some:
  "findIndex p xs = Some i \<Longrightarrow> i < length xs \<and> p (xs ! i) \<and> (\<forall>j<i. \<not> p (xs ! j))"
proof (induction xs arbitrary: i)
  case Nil
  then show ?case by simp
next
  case (Cons x xs)
  show ?case
  proof (cases "p x")
    case True
    with Cons.prems show ?thesis by simp
  next
    case False
    with Cons.prems obtain k where k: "findIndex p xs = Some k" "i = Suc k" by auto
    from Cons.IH [OF k(1)] False k(2) show ?thesis
      by (auto simp: less_Suc_eq_0_disj)
  qed
qed

lemma findIndex_None: "findIndex p xs = None \<longleftrightarrow> (\<forall>x\<in>set xs. \<not> p x)"
  by (induction xs) auto

lemma find_findIndex:
  "find p xs = (case findIndex p xs of None \<Rightarrow> None | Some i \<Rightarrow> Some (xs ! i))"
  by (induction xs) (auto split: option.splits)

lemma findIndex_update:
  "findIndex p xs = Some i \<Longrightarrow> p y \<Longrightarrow> findIndex p (xs[i := y]) = Some i"
proof (induction xs arbitrary: i)
  case Nil
  then show ?case by simp
next
  case (Cons x xs)
  then show ?case by (cases i) (auto split: if_splits)
qed

lemma find_Some_if_member: "x \<in> set xs \<Longrightarrow> p x \<Longrightarrow> find p xs \<noteq> None"
  by (auto simp: find_None_iff)

text \<open>
  The index that \<open>findIndex\<close> returns, said without it: the first position whose entry
  passes the test.
\<close>

lemma findIndex_first:
  "i < length xs \<Longrightarrow> p (xs ! i) \<Longrightarrow> \<forall>j<i. \<not> p (xs ! j) \<Longrightarrow> findIndex p xs = Some i"
proof (induction xs arbitrary: i)
  case Nil
  then show ?case by simp
next
  case (Cons x xs)
  show ?case
  proof (cases i)
    case 0
    with Cons.prems show ?thesis by simp
  next
    case (Suc k)
    have nx: "\<not> p x" using Cons.prems(3) Suc by auto
    have "findIndex p xs = Some k"
    proof (rule Cons.IH)
      show "k < length xs" using Cons.prems(1) Suc by simp
      show "p (xs ! k)" using Cons.prems(2) Suc by simp
      show "\<forall>j<k. \<not> p (xs ! j)"
      proof (intro allI impI)
        fix j assume "j < k"
        then have "Suc j < i" using Suc by simp
        then have "\<not> p ((x # xs) ! Suc j)" using Cons.prems(3) by blast
        then show "\<not> p (xs ! j)" by simp
      qed
    qed
    with nx Suc show ?thesis by simp
  qed
qed

section \<open>Facts about decimal ids and the badge payload\<close>

lemma digitChar_values:
  "digitChar 0 = CHR ''0''" "digitChar (Suc 0) = CHR ''1''" "digitChar 2 = CHR ''2''"
  "digitChar 3 = CHR ''3''" "digitChar 4 = CHR ''4''" "digitChar 5 = CHR ''5''"
  "digitChar 6 = CHR ''6''" "digitChar 7 = CHR ''7''" "digitChar 8 = CHR ''8''"
  "digitChar 9 = CHR ''9''"
  by code_simp+

lemma String_of_nat_example: "String_of_nat 1700000000000 = ''1700000000000''"
  by (simp add: String_of_nat.simps digitChar_values)

lemma digitChar_inj: "a < 10 \<Longrightarrow> b < 10 \<Longrightarrow> digitChar a = digitChar b \<Longrightarrow> a = b"
proof -
  assume a: "a < 10" and b: "b < 10" and eq: "digitChar a = digitChar b"
  have va: "of_char (digitChar a) = (48 + a :: nat)" using a by (simp add: digitChar_def)
  have vb: "of_char (digitChar b) = (48 + b :: nat)" using b by (simp add: digitChar_def)
  have "(of_char (digitChar a) :: nat) = of_char (digitChar b)" by (simp only: eq)
  then have "48 + a = 48 + b" by (simp only: va vb)
  then show "a = b" by (simp only: add_left_cancel)
qed

lemma String_of_nat_not_Nil: "String_of_nat n \<noteq> []"
  by (subst String_of_nat.simps) simp

lemma String_of_nat_inj: "String_of_nat m = String_of_nat n \<Longrightarrow> m = n"
proof (induction m arbitrary: n rule: String_of_nat.induct)
  case (1 m)
  show ?case
  proof (cases "m < 10")
    case True
    then have m: "String_of_nat m = [digitChar m]" by (subst String_of_nat.simps) simp
    show ?thesis
    proof (cases "n < 10")
      case True
      then have "String_of_nat n = [digitChar n]" by (subst String_of_nat.simps) simp
      with m "1.prems" have "digitChar m = digitChar n" by simp
      then show ?thesis using \<open>m < 10\<close> True by (rule digitChar_inj [rotated 2])
    next
      case False
      then have "String_of_nat n = String_of_nat (n div 10) @ [digitChar (n mod 10)]"
        by (subst String_of_nat.simps) simp
      with m "1.prems" have "String_of_nat (n div 10) = []" by simp
      then show ?thesis using String_of_nat_not_Nil by blast
    qed
  next
    case False
    then have m: "String_of_nat m = String_of_nat (m div 10) @ [digitChar (m mod 10)]"
      by (subst String_of_nat.simps) simp
    show ?thesis
    proof (cases "n < 10")
      case True
      then have "String_of_nat n = [digitChar n]" by (subst String_of_nat.simps) simp
      with m "1.prems" have "String_of_nat (m div 10) = []" by simp
      then show ?thesis using String_of_nat_not_Nil by blast
    next
      case nf: False
      then have "String_of_nat n = String_of_nat (n div 10) @ [digitChar (n mod 10)]"
        by (subst String_of_nat.simps) simp
      with m "1.prems" have eq: "String_of_nat (m div 10) = String_of_nat (n div 10)"
        "digitChar (m mod 10) = digitChar (n mod 10)" by simp_all
      have "m div 10 = n div 10" using "1.IH" [OF False eq(1)] .
      moreover have "m mod 10 = n mod 10"
        by (rule digitChar_inj [OF _ _ eq(2)]) simp_all
      ultimately show ?thesis by (metis div_mult_mod_eq)
    qed
  qed
qed

lemma digitChar_plain: "d < 10 \<Longrightarrow> digitChar d \<noteq> CHR '':'' \<and> \<not> isWhiteSpace (digitChar d)"
proof -
  assume d: "d < 10"
  have v: "of_char (digitChar d) = (48 + d :: nat)" using d by (simp add: digitChar_def)
  have c: "of_char (CHR '':'') = (58 :: nat)" by simp
  have "digitChar d \<noteq> CHR '':''"
  proof
    assume "digitChar d = CHR '':''"
    then have "(of_char (digitChar d) :: nat) = of_char (CHR '':'')" by (simp only:)
    then have "48 + d = 58" by (simp only: v c)
    then show False using d by simp
  qed
  moreover have "\<not> isWhiteSpace (digitChar d)"
    unfolding isWhiteSpace_def v using d by simp
  ultimately show ?thesis by simp
qed

lemma String_of_nat_plain:
  "String_of_nat n \<noteq> [] \<and> CHR '':'' \<notin> set (String_of_nat n)
   \<and> \<not> isWhiteSpace (last (String_of_nat n))"
proof (induction n rule: String_of_nat.induct)
  case (1 n)
  show ?case
  proof (cases "n < 10")
    case True
    then have "String_of_nat n = [digitChar n]" by (subst String_of_nat.simps) simp
    then show ?thesis using digitChar_plain [OF True] by auto
  next
    case False
    then have "String_of_nat n = String_of_nat (n div 10) @ [digitChar (n mod 10)]"
      by (subst String_of_nat.simps) simp
    moreover have "n mod 10 < 10" by simp
    ultimately show ?thesis using "1.IH" [OF False] digitChar_plain [of "n mod 10"] by auto
  qed
qed

lemma lower_prefix: "toLowerCase ''hemisphere:'' = ''hemisphere:''"
  by (simp add: toLowerCase_def lowerChar_def)

lemma h_not_space: "\<not> isWhiteSpace CHR ''h''"
  by (simp add: isWhiteSpace_def)

lemma trim_payload:
  "ident \<noteq> [] \<Longrightarrow> \<not> isWhiteSpace (last ident) \<Longrightarrow> trim (''hemisphere:'' @ ident) = ''hemisphere:'' @ ident"
  by (simp add: trim_def trimStart_def h_not_space trimEnd_id)

lemma startsWith_payload: "startsWith (toLowerCase (''hemisphere:'' @ ident)) ''hemisphere:''"
  using lower_prefix by (simp add: startsWith_def toLowerCase_def)

lemma ident_of_payload:
  assumes "ident \<noteq> []" "\<not> isWhiteSpace (last ident)" "CHR '':'' \<notin> set ident"
  shows "orEmpty (pop (split CHR '':'' (''hemisphere:'' @ ident))) = ident"
proof -
  have "''hemisphere:'' @ ident = ''hemisphere'' @ CHR '':'' # ident" by simp
  then have "pop (split CHR '':'' (''hemisphere:'' @ ident)) = Some ident"
    using pop_split_prefixed [OF assms(3), of "''hemisphere''"] by simp
  then show ?thesis by (simp add: orEmpty_def)
qed

lemma idOfParam_plain: "CHR '':'' \<notin> set ident \<Longrightarrow> idOfParam ident = ident"
  by (simp add: idOfParam_def pop_split_plain orEmpty_def)

section \<open>Facts about the routes\<close>

lemma withName_fields [simp]:
  "a_id (withName a) = a_id a" "a_email (withName a) = a_email a"
  "a_checkedIn (withName a) = a_checkedIn a" "a_checkedInAt (withName a) = a_checkedInAt a"
  "a_firstName (withName a) = a_firstName a" "a_lastName (withName a) = a_lastName a"
  by (simp_all add: withName_def)

lemma GET_attendee_found:
  assumes "attendeesFile s = Content xs" "findIndex (\<lambda>a. a_id a = ident) xs = Some i"
    "CHR '':'' \<notin> set ident"
  shows "GET_attendee ident s = Reply 200 (withName (xs ! i))"
  using assms by (simp add: GET_attendee_def idOfParam_plain find_findIndex)

lemma lookupById_found:
  assumes "attendeesFile s = Content xs" "findIndex (\<lambda>a. a_id a = ident) xs = Some i"
    "CHR '':'' \<notin> set ident"
  shows "lookupById ident s = Some (withName (xs ! i))"
  by (simp add: lookupById_def GET_attendee_found [OF assms] ok_def)

lemma POST_checkin_found:
  assumes "attendeesFile s = Content xs" "findIndex (\<lambda>a. a_id a = ident) xs = Some i"
  shows "POST_checkin stamp \<lparr> c_id = ident, c_checkedIn = Some True \<rparr> s =
         (Reply 200 ((xs ! i)\<lparr>a_checkedIn := True, a_checkedInAt := Some stamp\<rparr>),
          s\<lparr>attendeesFile :=
              Content (xs[i := (xs ! i)\<lparr>a_checkedIn := True, a_checkedInAt := Some stamp\<rparr>])\<rparr>)"
  using assms by (simp add: POST_checkin_def Let_def)

lemma POST_scanlog_appends:
  assumes "scanLogFile s = Content logs"
  shows "snd (POST_scanlog now stamp (logBody found dn m) s) =
         s\<lparr>scanLogFile := Content (logs @
            [\<lparr> s_id = now, s_attendeeId = a_id found, s_attendeeName = dn,
               s_attendeeEmail = a_email found,
               s_method = (if m = [] then ''scan'' else m), s_timestamp = stamp \<rparr>])\<rparr>"
  using assms by (simp add: POST_scanlog_def logBody_def Let_def)

lemma POST_scanlog_unreadable:
  assumes "scanLogFile s = Missing \<or> scanLogFile s = Corrupt"
  shows "snd (POST_scanlog now stamp b s) = s"
  using assms by (auto simp: POST_scanlog_def Let_def)

lemma POST_scanlog_attendees [simp]:
  "attendeesFile (snd (POST_scanlog now stamp b s)) = attendeesFile s"
  by (simp add: POST_scanlog_def Let_def split: jsonFile.splits)

lemma displayName_withName_checked [simp]:
  "displayNameOf (withName (a\<lparr>a_checkedIn := b, a_checkedInAt := t\<rparr>)) = displayNameOf (withName a)"
  by (simp add: displayNameOf_def withName_def fullNameOf_def)

lemma set_sortNewestFirst [simp]: "set (sortNewestFirst xs) = set xs"
  by (simp add: sortNewestFirst_def)

lemma GET_attendees_readable:
  assumes "readAttendees (attendeesFile s) = Some xs"
  shows "\<exists>list. GET_attendees s = Reply 200 list \<and> set list = set xs"
  using assms by (auto simp: GET_attendees_def readAttendees_def split: jsonFile.splits)

lemma POST_register_tokens [simp]:
  "tokensFile (snd (POST_register now stamp body s)) = tokensFile s"
  by (simp add: POST_register_def Let_def split: option.splits)

lemma POST_checkin_tokens [simp]:
  "tokensFile (snd (POST_checkin stamp cb s)) = tokensFile s"
  by (simp add: POST_checkin_def Let_def split: jsonFile.splits option.splits)

lemma PATCH_attendee_tokens [simp]:
  "tokensFile (snd (PATCH_attendee rawId payload s)) = tokensFile s"
  by (simp add: PATCH_attendee_def Let_def split: jsonFile.splits option.splits)

lemma POST_scanlog_tokens [simp]:
  "tokensFile (snd (POST_scanlog now stamp b s)) = tokensFile s"
  by (simp add: POST_scanlog_def Let_def split: jsonFile.splits)

lemma POST_leads_tokens [simp]:
  "tokensFile (snd (POST_leads now stamp req s)) = tokensFile s"
  by (simp add: POST_leads_def Let_def)

lemma handleScanResult_tokens [simp]:
  "tokensFile (snd (handleScanResult clk raw u s)) = tokensFile s"
  by (simp add: handleScanResult_def Let_def split: option.splits)

lemma handleManualCheckin_tokens [simp]:
  "tokensFile (snd (handleManualCheckin clk manualName u s)) = tokensFile s"
  by (simp add: handleManualCheckin_def Let_def split: option.splits response.splits)

lemma normalizeEmail_example: "normalizeEmail '' Ada@X.com '' = ''ada@x.com''"
  by (simp add: normalizeEmail_def trim_def trimStart_def trimEnd_def isWhiteSpace_def
      toLowerCase_def lowerChar_def char_of_def bit_0)

lemma normalizeEmail_lower_example: "normalizeEmail ''ada@x.com'' = ''ada@x.com''"
  by (simp add: normalizeEmail_def trim_def trimStart_def trimEnd_def isWhiteSpace_def
      toLowerCase_def lowerChar_def)

lemma normalizeEmail_bob: "normalizeEmail ''bob@x.com'' = ''bob@x.com''"
  by (simp add: normalizeEmail_def trim_def trimStart_def trimEnd_def isWhiteSpace_def
      toLowerCase_def lowerChar_def)


lemma header_line: "join '','' headers = ''id,attendeeId,attendeeName,attendeeEmail,timestamp''"
  by (simp add: headers_def)

section \<open>C1: repeated scans of one badge\<close>

lemma scan_first:
  assumes "attendeesFile s = Content xs" "scanLogFile s = Content logs"
    "findIndex (\<lambda>a. a_id a = ident) xs = Some i"
    "ident \<noteq> []" "CHR '':'' \<notin> set ident" "\<not> isWhiteSpace (last ident)"
    "\<not> a_checkedIn (xs ! i)"
  shows "snd (handleScanResult clk (''hemisphere:'' @ ident) u s) =
         s\<lparr>attendeesFile :=
              Content (xs[i := (xs ! i)\<lparr>a_checkedIn := True, a_checkedInAt := Some (atCheckin clk)\<rparr>]),
           scanLogFile := Content (logs @
            [\<lparr> s_id = atLogId clk, s_attendeeId = ident,
               s_attendeeName = displayNameOf (withName (xs ! i)),
               s_attendeeEmail = a_email (xs ! i),
               s_method = ''scan'', s_timestamp = atLogStamp clk \<rparr>])\<rparr>"
proof -
  have idx: "a_id (xs ! i) = ident" using findIndex_Some [OF assms(3)] by simp
  have id: "orEmpty (pop (split CHR '':'' (''hemisphere:'' @ ident))) = ident"
    by (rule ident_of_payload [OF assms(4,6,5)])
  have look: "lookupById ident s = Some (withName (xs ! i))"
    by (rule lookupById_found [OF assms(1,3,5)])
  let ?s1 = "s\<lparr>attendeesFile :=
              Content (xs[i := (xs ! i)\<lparr>a_checkedIn := True, a_checkedInAt := Some (atCheckin clk)\<rparr>])\<rparr>"
  have chk: "snd (POST_checkin (atCheckin clk) \<lparr> c_id = ident, c_checkedIn = Some True \<rparr> s) = ?s1"
    by (simp add: POST_checkin_found [OF assms(1,3)])
  have log1: "scanLogFile ?s1 = Content logs" using assms(2) by simp
  show ?thesis
    unfolding handleScanResult_def
    by (simp add: Let_def trim_payload [OF assms(4,6)] startsWith_payload id assms(4) look
        assms(7) chk POST_scanlog_appends [OF log1] idx del: append.simps)
qed

lemma scan_again:
  assumes "attendeesFile s = Content xs" "scanLogFile s = Content logs"
    "findIndex (\<lambda>a. a_id a = ident) xs = Some i"
    "ident \<noteq> []" "CHR '':'' \<notin> set ident" "\<not> isWhiteSpace (last ident)"
    "a_checkedIn (xs ! i)"
  shows "snd (handleScanResult clk (''hemisphere:'' @ ident) u s) =
         s\<lparr>scanLogFile := Content (logs @
            [\<lparr> s_id = atLogId clk, s_attendeeId = ident,
               s_attendeeName = displayNameOf (withName (xs ! i)),
               s_attendeeEmail = a_email (xs ! i),
               s_method = ''scan'', s_timestamp = atLogStamp clk \<rparr>])\<rparr>"
proof -
  have idx: "a_id (xs ! i) = ident" using findIndex_Some [OF assms(3)] by simp
  have id: "orEmpty (pop (split CHR '':'' (''hemisphere:'' @ ident))) = ident"
    by (rule ident_of_payload [OF assms(4,6,5)])
  have look: "lookupById ident s = Some (withName (xs ! i))"
    by (rule lookupById_found [OF assms(1,3,5)])
  show ?thesis
    unfolding handleScanResult_def
    by (simp add: Let_def trim_payload [OF assms(4,6)] startsWith_payload id assms(4) look
        assms(7) POST_scanlog_appends [OF assms(2)] idx del: append.simps)
qed

lemma scan_again_repeatedly:
  assumes "attendeesFile s = Content xs" "scanLogFile s = Content logs"
    "findIndex (\<lambda>a. a_id a = ident) xs = Some i"
    "ident \<noteq> []" "CHR '':'' \<notin> set ident" "\<not> isWhiteSpace (last ident)"
    "a_checkedIn (xs ! i)"
  shows "snd (scanRepeatedly clks (''hemisphere:'' @ ident) u s) =
         s\<lparr>scanLogFile := Content (logs @
            map (\<lambda>c. \<lparr> s_id = atLogId c, s_attendeeId = ident,
               s_attendeeName = displayNameOf (withName (xs ! i)),
               s_attendeeEmail = a_email (xs ! i),
               s_method = ''scan'', s_timestamp = atLogStamp c \<rparr>) clks)\<rparr>"
  using assms(1,2)
proof (induction clks arbitrary: u s logs)
  case Nil
  then show ?case by simp
next
  case (Cons clk clks)
  let ?e = "\<lparr> s_id = atLogId clk, s_attendeeId = ident,
               s_attendeeName = displayNameOf (withName (xs ! i)),
               s_attendeeEmail = a_email (xs ! i),
               s_method = ''scan'', s_timestamp = atLogStamp clk \<rparr>"
  let ?s' = "s\<lparr>scanLogFile := Content (logs @ [?e])\<rparr>"
  obtain u' where step: "handleScanResult clk (''hemisphere:'' @ ident) u s = (u', ?s')"
    using scan_again [OF Cons.prems assms(3-7), of clk u]
    by (cases "handleScanResult clk (''hemisphere:'' @ ident) u s") simp
  have a': "attendeesFile ?s' = Content xs" using Cons.prems(1) by simp
  have l': "scanLogFile ?s' = Content (logs @ [?e])" by simp
  show ?case
    using Cons.IH [OF a' l', of u'] step by (simp del: append.simps)
qed

lemma scan_first_unlogged:
  assumes "attendeesFile s = Content xs" "scanLogFile s = Missing \<or> scanLogFile s = Corrupt"
    "findIndex (\<lambda>a. a_id a = ident) xs = Some i"
    "ident \<noteq> []" "CHR '':'' \<notin> set ident" "\<not> isWhiteSpace (last ident)"
    "\<not> a_checkedIn (xs ! i)"
  shows "snd (handleScanResult clk (''hemisphere:'' @ ident) u s) =
         s\<lparr>attendeesFile :=
              Content (xs[i := (xs ! i)\<lparr>a_checkedIn := True, a_checkedInAt := Some (atCheckin clk)\<rparr>])\<rparr>"
proof -
  have id: "orEmpty (pop (split CHR '':'' (''hemisphere:'' @ ident))) = ident"
    by (rule ident_of_payload [OF assms(4,6,5)])
  have look: "lookupById ident s = Some (withName (xs ! i))"
    by (rule lookupById_found [OF assms(1,3,5)])
  let ?s1 = "s\<lparr>attendeesFile :=
              Content (xs[i := (xs ! i)\<lparr>a_checkedIn := True, a_checkedInAt := Some (atCheckin clk)\<rparr>])\<rparr>"
  have chk: "snd (POST_checkin (atCheckin clk) \<lparr> c_id = ident, c_checkedIn = Some True \<rparr> s) = ?s1"
    by (simp add: POST_checkin_found [OF assms(1,3)])
  have log1: "scanLogFile ?s1 = Missing \<or> scanLogFile ?s1 = Corrupt" using assms(2) by simp
  show ?thesis
    unfolding handleScanResult_def
    by (simp add: Let_def trim_payload [OF assms(4,6)] startsWith_payload id assms(4) look
        assms(7) chk POST_scanlog_unreadable [OF log1] del: append.simps)
qed

lemma scan_again_unlogged:
  assumes "attendeesFile s = Content xs" "scanLogFile s = Missing \<or> scanLogFile s = Corrupt"
    "findIndex (\<lambda>a. a_id a = ident) xs = Some i"
    "ident \<noteq> []" "CHR '':'' \<notin> set ident" "\<not> isWhiteSpace (last ident)"
    "a_checkedIn (xs ! i)"
  shows "snd (handleScanResult clk (''hemisphere:'' @ ident) u s) = s"
proof -
  have id: "orEmpty (pop (split CHR '':'' (''hemisphere:'' @ ident))) = ident"
    by (rule ident_of_payload [OF assms(4,6,5)])
  have look: "lookupById ident s = Some (withName (xs ! i))"
    by (rule lookupById_found [OF assms(1,3,5)])
  show ?thesis
    unfolding handleScanResult_def
    by (simp add: Let_def trim_payload [OF assms(4,6)] startsWith_payload id assms(4) look
        assms(7) POST_scanlog_unreadable [OF assms(2)] del: append.simps)
qed

lemma scan_again_repeatedly_unlogged:
  assumes "attendeesFile s = Content xs" "scanLogFile s = Missing \<or> scanLogFile s = Corrupt"
    "findIndex (\<lambda>a. a_id a = ident) xs = Some i"
    "ident \<noteq> []" "CHR '':'' \<notin> set ident" "\<not> isWhiteSpace (last ident)"
    "a_checkedIn (xs ! i)"
  shows "snd (scanRepeatedly clks (''hemisphere:'' @ ident) u s) = s"
proof (induction clks arbitrary: u)
  case Nil
  then show ?case by simp
next
  case (Cons clk clks)
  obtain u' where step: "handleScanResult clk (''hemisphere:'' @ ident) u s = (u', s)"
    using scan_again_unlogged [OF assms, of clk u]
    by (cases "handleScanResult clk (''hemisphere:'' @ ident) u s") simp
  show ?case using Cons.IH [of u'] step by (simp del: append.simps)
qed

text \<open>
  C1, as stated, fails where the scan-log file is absent: \<open>POST /api/scanlog\<close> answers
  500, the page does not look at the answer, and nothing is appended. Here the first scan
  of the second attendee's badge checks her in and leaves the scan log absent, and the
  second scan changes nothing at all.
\<close>

theorem scan_without_log_file_counterexample:
  "attendeesFile (exTwoStore\<lparr>scanLogFile := Missing\<rparr>) = Content [exGrace, exAda]
   \<and> a_id exAda = ''1700000000000''
   \<and> snd (handleScanResult \<lparr>atCheckin = 5, atLogId = 6, atLogStamp = 7\<rparr>
          ''hemisphere:1700000000000'' exUi (exTwoStore\<lparr>scanLogFile := Missing\<rparr>))
     = exTwoStore\<lparr>attendeesFile :=
           Content [exGrace, exAda\<lparr>a_checkedIn := True, a_checkedInAt := Some 5\<rparr>],
         scanLogFile := Missing\<rparr>
   \<and> snd (handleScanResult \<lparr>atCheckin = 15, atLogId = 16, atLogStamp = 17\<rparr>
          ''hemisphere:1700000000000'' exUi
          (exTwoStore\<lparr>attendeesFile :=
               Content [exGrace, exAda\<lparr>a_checkedIn := True, a_checkedInAt := Some 5\<rparr>],
             scanLogFile := Missing\<rparr>))
     = exTwoStore\<lparr>attendeesFile :=
           Content [exGrace, exAda\<lparr>a_checkedIn := True, a_checkedInAt := Some 5\<rparr>],
         scanLogFile := Missing\<rparr>"
proof -
  have ws: "\<not> isWhiteSpace (last ''1700000000000'')" by (simp add: isWhiteSpace_def)
  have f0: "findIndex (\<lambda>a. a_id a = ''1700000000000'') [exGrace, exAda] = Some 1"
    by (simp add: exGrace_def exAda_def)
  have f1: "findIndex (\<lambda>a. a_id a = ''1700000000000'')
              [exGrace, exAda\<lparr>a_checkedIn := True, a_checkedInAt := Some 5\<rparr>] = Some 1"
    by (simp add: exGrace_def exAda_def)
  have 1: "snd (handleScanResult \<lparr>atCheckin = 5, atLogId = 6, atLogStamp = 7\<rparr>
          ''hemisphere:1700000000000'' exUi (exTwoStore\<lparr>scanLogFile := Missing\<rparr>))
     = exTwoStore\<lparr>attendeesFile :=
           Content [exGrace, exAda\<lparr>a_checkedIn := True, a_checkedInAt := Some 5\<rparr>],
         scanLogFile := Missing\<rparr>"
    using scan_first_unlogged [of "exTwoStore\<lparr>scanLogFile := Missing\<rparr>" "[exGrace, exAda]"
        "''1700000000000''" 1 "\<lparr>atCheckin = 5, atLogId = 6, atLogStamp = 7\<rparr>" exUi] f0 ws
    by (simp add: exTwoStore_def exAda_def)
  have 2: "snd (handleScanResult \<lparr>atCheckin = 15, atLogId = 16, atLogStamp = 17\<rparr>
          ''hemisphere:1700000000000'' exUi
          (exTwoStore\<lparr>attendeesFile :=
               Content [exGrace, exAda\<lparr>a_checkedIn := True, a_checkedInAt := Some 5\<rparr>],
             scanLogFile := Missing\<rparr>))
     = exTwoStore\<lparr>attendeesFile :=
           Content [exGrace, exAda\<lparr>a_checkedIn := True, a_checkedInAt := Some 5\<rparr>],
         scanLogFile := Missing\<rparr>"
    using scan_again_unlogged [of "exTwoStore\<lparr>attendeesFile :=
               Content [exGrace, exAda\<lparr>a_checkedIn := True, a_checkedInAt := Some 5\<rparr>],
             scanLogFile := Missing\<rparr>"
        "[exGrace, exAda\<lparr>a_checkedIn := True, a_checkedInAt := Some 5\<rparr>]"
        "''1700000000000''" 1 "\<lparr>atCheckin = 15, atLogId = 16, atLogStamp = 17\<rparr>" exUi] f1 ws
    by (simp add: exTwoStore_def)
  have 3: "attendeesFile (exTwoStore\<lparr>scanLogFile := Missing\<rparr>) = Content [exGrace, exAda]"
    by (simp add: exTwoStore_def)
  have 4: "a_id exAda = ''1700000000000''" by (simp add: exAda_def)
  show ?thesis using 1 2 3 4 by blast
qed

text \<open>
  C1, amended. Take the attendee at position \<open>i\<close> of the attendees file, not checked in,
  whose id no earlier entry of the file has; the id is non-empty, has no colon and does
  not end in white space, as every id that registration writes
  (\<open>String_of_nat_plain\<close>). Scanning \<open>hemisphere:<id>\<close> once for each clock of
  \<open>clk # clks\<close>: the first scan marks this attendee checked in and sets \<open>checkedInAt\<close> to
  the instant of that request, and after all the scans the attendees file is still what
  the first scan left, so \<open>checkedInAt\<close> keeps that instant. When the scan-log file exists
  and parses, the first scan appends one entry and after all the scans the log has gained
  exactly one entry for each scan, in order; when the file is absent or holds corrupt JSON,
  no scan appends anything. What happens to a later entry that shares an earlier entry's
  id is not part of the statement.
\<close>

theorem scan_repeatedly_checks_in_once:
  assumes "attendeesFile s = Content xs"
    and "i < length xs" and "a_id (xs ! i) = ident" and "\<forall>j<i. a_id (xs ! j) \<noteq> ident"
    and "ident \<noteq> []" and "CHR '':'' \<notin> set ident" and "\<not> isWhiteSpace (last ident)"
    and "\<not> a_checkedIn (xs ! i)"
  shows "(scanLogFile s = Content logs \<longrightarrow>
          snd (handleScanResult clk (''hemisphere:'' @ ident) u s) =
            s\<lparr>attendeesFile :=
                 Content (xs[i := (xs ! i)\<lparr>a_checkedIn := True, a_checkedInAt := Some (atCheckin clk)\<rparr>]),
              scanLogFile := Content (logs @
               [\<lparr> s_id = atLogId clk, s_attendeeId = ident,
                  s_attendeeName = displayNameOf (withName (xs ! i)),
                  s_attendeeEmail = a_email (xs ! i),
                  s_method = ''scan'', s_timestamp = atLogStamp clk \<rparr>])\<rparr>
          \<and> snd (scanRepeatedly (clk # clks) (''hemisphere:'' @ ident) u s) =
            s\<lparr>attendeesFile :=
                 Content (xs[i := (xs ! i)\<lparr>a_checkedIn := True, a_checkedInAt := Some (atCheckin clk)\<rparr>]),
              scanLogFile := Content (logs @
               map (\<lambda>c. \<lparr> s_id = atLogId c, s_attendeeId = ident,
                  s_attendeeName = displayNameOf (withName (xs ! i)),
                  s_attendeeEmail = a_email (xs ! i),
                  s_method = ''scan'', s_timestamp = atLogStamp c \<rparr>) (clk # clks))\<rparr>)
       \<and> (scanLogFile s = Missing \<or> scanLogFile s = Corrupt \<longrightarrow>
          snd (handleScanResult clk (''hemisphere:'' @ ident) u s) =
            s\<lparr>attendeesFile :=
                 Content (xs[i := (xs ! i)\<lparr>a_checkedIn := True, a_checkedInAt := Some (atCheckin clk)\<rparr>])\<rparr>
          \<and> snd (scanRepeatedly (clk # clks) (''hemisphere:'' @ ident) u s) =
            s\<lparr>attendeesFile :=
                 Content (xs[i := (xs ! i)\<lparr>a_checkedIn := True, a_checkedInAt := Some (atCheckin clk)\<rparr>])\<rparr>)"
proof -
  let ?a' = "(xs ! i)\<lparr>a_checkedIn := True, a_checkedInAt := Some (atCheckin clk)\<rparr>"
  let ?e = "\<lambda>c. \<lparr> s_id = atLogId c, s_attendeeId = ident,
               s_attendeeName = displayNameOf (withName (xs ! i)),
               s_attendeeEmail = a_email (xs ! i),
               s_method = ''scan'', s_timestamp = atLogStamp c \<rparr>"
  have f: "findIndex (\<lambda>a. a_id a = ident) xs = Some i"
    using assms(2-4) by (intro findIndex_first) simp_all
  have f1: "findIndex (\<lambda>a. a_id a = ident) (xs[i := ?a']) = Some i"
    by (rule findIndex_update [OF f]) (simp add: assms(3))
  have c1: "a_checkedIn (xs[i := ?a'] ! i)" using assms(2) by simp
  have logged: "scanLogFile s = Content logs \<longrightarrow>
          snd (handleScanResult clk (''hemisphere:'' @ ident) u s) =
            s\<lparr>attendeesFile := Content (xs[i := ?a']), scanLogFile := Content (logs @ [?e clk])\<rparr>
          \<and> snd (scanRepeatedly (clk # clks) (''hemisphere:'' @ ident) u s) =
            s\<lparr>attendeesFile := Content (xs[i := ?a']),
              scanLogFile := Content (logs @ map ?e (clk # clks))\<rparr>"
  proof
    assume l: "scanLogFile s = Content logs"
    let ?s1 = "s\<lparr>attendeesFile := Content (xs[i := ?a']), scanLogFile := Content (logs @ [?e clk])\<rparr>"
    have first: "snd (handleScanResult clk (''hemisphere:'' @ ident) u s) = ?s1"
      by (rule scan_first [OF assms(1) l f assms(5-8)])
    then obtain u' where step: "handleScanResult clk (''hemisphere:'' @ ident) u s = (u', ?s1)"
      by (cases "handleScanResult clk (''hemisphere:'' @ ident) u s") simp
    have a1: "attendeesFile ?s1 = Content (xs[i := ?a'])" by simp
    have l1: "scanLogFile ?s1 = Content (logs @ [?e clk])" by simp
    have "snd (scanRepeatedly clks (''hemisphere:'' @ ident) u' ?s1) =
          ?s1\<lparr>scanLogFile := Content ((logs @ [?e clk]) @ map ?e clks)\<rparr>"
      using scan_again_repeatedly [OF a1 l1 f1 assms(5-7) c1, of clks u'] assms(2)
      by (simp add: displayNameOf_def withName_def fullNameOf_def)
    then have "snd (scanRepeatedly (clk # clks) (''hemisphere:'' @ ident) u s) =
          s\<lparr>attendeesFile := Content (xs[i := ?a']),
            scanLogFile := Content (logs @ map ?e (clk # clks))\<rparr>"
      using step by simp
    with first show "snd (handleScanResult clk (''hemisphere:'' @ ident) u s) = ?s1
          \<and> snd (scanRepeatedly (clk # clks) (''hemisphere:'' @ ident) u s) =
            s\<lparr>attendeesFile := Content (xs[i := ?a']),
              scanLogFile := Content (logs @ map ?e (clk # clks))\<rparr>"
      by (rule conjI)
  qed
  have unlogged: "scanLogFile s = Missing \<or> scanLogFile s = Corrupt \<longrightarrow>
          snd (handleScanResult clk (''hemisphere:'' @ ident) u s) =
            s\<lparr>attendeesFile := Content (xs[i := ?a'])\<rparr>
          \<and> snd (scanRepeatedly (clk # clks) (''hemisphere:'' @ ident) u s) =
            s\<lparr>attendeesFile := Content (xs[i := ?a'])\<rparr>"
  proof
    assume l: "scanLogFile s = Missing \<or> scanLogFile s = Corrupt"
    let ?s1 = "s\<lparr>attendeesFile := Content (xs[i := ?a'])\<rparr>"
    have first: "snd (handleScanResult clk (''hemisphere:'' @ ident) u s) = ?s1"
      by (rule scan_first_unlogged [OF assms(1) l f assms(5-8)])
    then obtain u' where step: "handleScanResult clk (''hemisphere:'' @ ident) u s = (u', ?s1)"
      by (cases "handleScanResult clk (''hemisphere:'' @ ident) u s") simp
    have a1: "attendeesFile ?s1 = Content (xs[i := ?a'])" by simp
    have l1: "scanLogFile ?s1 = Missing \<or> scanLogFile ?s1 = Corrupt" using l by simp
    have "snd (scanRepeatedly clks (''hemisphere:'' @ ident) u' ?s1) = ?s1"
      by (rule scan_again_repeatedly_unlogged [OF a1 l1 f1 assms(5-7) c1])
    then have "snd (scanRepeatedly (clk # clks) (''hemisphere:'' @ ident) u s) = ?s1"
      using step by simp
    with first show "snd (handleScanResult clk (''hemisphere:'' @ ident) u s) = ?s1
          \<and> snd (scanRepeatedly (clk # clks) (''hemisphere:'' @ ident) u s) = ?s1"
      by (rule conjI)
  qed
  from logged unlogged show ?thesis by (rule conjI)
qed

theorem scan_repeatedly_checks_in_once_witness:
  "attendeesFile exTwoStore = Content [exGrace, exAda]
   \<and> scanLogFile exTwoStore = Content []
   \<and> a_id ([exGrace, exAda] ! 1) = ''1700000000000''
   \<and> a_id ([exGrace, exAda] ! 0) \<noteq> ''1700000000000''
   \<and> snd (scanRepeatedly
          [\<lparr>atCheckin = 5, atLogId = 6, atLogStamp = 7\<rparr>,
           \<lparr>atCheckin = 15, atLogId = 16, atLogStamp = 17\<rparr>,
           \<lparr>atCheckin = 25, atLogId = 26, atLogStamp = 27\<rparr>]
          ''hemisphere:1700000000000'' exUi exTwoStore) =
     exTwoStore\<lparr>attendeesFile :=
         Content [exGrace, exAda\<lparr>a_checkedIn := True, a_checkedInAt := Some 5\<rparr>],
       scanLogFile := Content
         [\<lparr>s_id = 6, s_attendeeId = ''1700000000000'', s_attendeeName = ''Ada Lovelace'',
            s_attendeeEmail = ''ada@x.com'', s_method = ''scan'', s_timestamp = 7\<rparr>,
          \<lparr>s_id = 16, s_attendeeId = ''1700000000000'', s_attendeeName = ''Ada Lovelace'',
            s_attendeeEmail = ''ada@x.com'', s_method = ''scan'', s_timestamp = 17\<rparr>,
          \<lparr>s_id = 26, s_attendeeId = ''1700000000000'', s_attendeeName = ''Ada Lovelace'',
            s_attendeeEmail = ''ada@x.com'', s_method = ''scan'', s_timestamp = 27\<rparr>]\<rparr>"
proof -
  have name: "displayNameOf (withName exAda) = ''Ada Lovelace''"
    by (simp add: displayNameOf_def withName_def fullNameOf_def exAda_def trim_def trimStart_def
        trimEnd_def isWhiteSpace_def)
  have ws: "\<not> isWhiteSpace (last ''1700000000000'')" by (simp add: isWhiteSpace_def)
  have a: "attendeesFile exTwoStore = Content [exGrace, exAda]" by (simp add: exTwoStore_def)
  have l: "scanLogFile exTwoStore = Content []" by (simp add: exTwoStore_def)
  have i: "(1::nat) < length [exGrace, exAda]" by simp
  have t: "a_id ([exGrace, exAda] ! 1) = ''1700000000000''" by (simp add: exAda_def)
  have g: "a_id ([exGrace, exAda] ! 0) \<noteq> ''1700000000000''" by (simp add: exGrace_def)
  have e: "\<forall>j<1. a_id ([exGrace, exAda] ! j) \<noteq> ''1700000000000''" using g by simp
  have u: "\<not> a_checkedIn ([exGrace, exAda] ! 1)" by (simp add: exAda_def)
  have "snd (scanRepeatedly
          [\<lparr>atCheckin = 5, atLogId = 6, atLogStamp = 7\<rparr>,
           \<lparr>atCheckin = 15, atLogId = 16, atLogStamp = 17\<rparr>,
           \<lparr>atCheckin = 25, atLogId = 26, atLogStamp = 27\<rparr>]
          ''hemisphere:1700000000000'' exUi exTwoStore) =
     exTwoStore\<lparr>attendeesFile :=
         Content [exGrace, exAda\<lparr>a_checkedIn := True, a_checkedInAt := Some 5\<rparr>],
       scanLogFile := Content
         [\<lparr>s_id = 6, s_attendeeId = ''1700000000000'', s_attendeeName = ''Ada Lovelace'',
            s_attendeeEmail = ''ada@x.com'', s_method = ''scan'', s_timestamp = 7\<rparr>,
          \<lparr>s_id = 16, s_attendeeId = ''1700000000000'', s_attendeeName = ''Ada Lovelace'',
            s_attendeeEmail = ''ada@x.com'', s_method = ''scan'', s_timestamp = 17\<rparr>,
          \<lparr>s_id = 26, s_attendeeId = ''1700000000000'', s_attendeeName = ''Ada Lovelace'',
            s_attendeeEmail = ''ada@x.com'', s_method = ''scan'', s_timestamp = 27\<rparr>]\<rparr>"
    using scan_repeatedly_checks_in_once [OF a i t e _ _ ws u, of "[]"
        "\<lparr>atCheckin = 5, atLogId = 6, atLogStamp = 7\<rparr>" exUi
        "[\<lparr>atCheckin = 15, atLogId = 16, atLogStamp = 17\<rparr>,
          \<lparr>atCheckin = 25, atLogId = 26, atLogStamp = 27\<rparr>]"] l name
    by (simp add: exAda_def)
  then show ?thesis using a l t g by blast
qed

section \<open>C2: lead capture and the exhibitor token\<close>






section \<open>C3: registering an email twice\<close>

text \<open>
  C3, as stated, fails: the route tests the required fields before it reads the store, so
  a request whose email is already registered but whose \<open>firstName\<close> is empty is answered
  with 400, not 409. Here the email \<open>" Ada@X.com "\<close> equals, trimmed and lower-cased, the
  email of the attendee in the store.
\<close>

theorem register_duplicate_without_name_counterexample:
  "normalizeEmail (r_email exBlankName) = normalizeEmail (a_email exAda)
   \<and> attendeesFile exStore = Content [exAda]
   \<and> POST_register 1700000000001 1700000000001 exBlankName exStore
       = (Error 400 ''firstName, lastName, and email are required'', exStore)"
  by (simp add: POST_register_def exBlankName_def exAda_def exStore_def normalizeEmail_example
      normalizeEmail_lower_example)

text \<open>
  C3, amended. A registration request whose email, trimmed and lower-cased, equals that of
  an attendee in the store leaves the store as it was and fails: with 409 when it has its
  three required fields, with 400 when one of them is missing.
\<close>

theorem register_duplicate_email_conflict:
  assumes "attendeesFile s = Content xs" and "a \<in> set xs"
    and "normalizeEmail (a_email a) = normalizeEmail (r_email body)"
  shows "snd (POST_register now stamp body s) = s
       \<and> (r_firstName body \<noteq> [] \<and> r_lastName body \<noteq> [] \<and> r_email body \<noteq> [] \<longrightarrow>
            fst (POST_register now stamp body s) =
              Error 409 ''An attendee with this email is already registered.'')
       \<and> (r_firstName body = [] \<or> r_lastName body = [] \<or> r_email body = [] \<longrightarrow>
            fst (POST_register now stamp body s) =
              Error 400 ''firstName, lastName, and email are required'')"
proof -
  have "find (\<lambda>a. normalizeEmail (a_email a) = normalizeEmail (r_email body)) xs \<noteq> None"
    using assms(2,3) by (rule find_Some_if_member)
  then obtain d where "find (\<lambda>a. normalizeEmail (a_email a) = normalizeEmail (r_email body)) xs = Some d"
    by blast
  then show ?thesis
    using assms(1) by (simp add: POST_register_def readAttendees_def Let_def)
qed

theorem register_duplicate_email_conflict_witness:
  "attendeesFile exStore = Content [exAda]
   \<and> normalizeEmail (a_email exAda) = normalizeEmail (r_email exAdaAgain)
   \<and> POST_register 1700000000001 1700000000001 exAdaAgain exStore =
     (Error 409 ''An attendee with this email is already registered.'', exStore)"
proof -
  have f: "attendeesFile exStore = Content [exAda]" by (simp add: exStore_def)
  have m: "exAda \<in> set [exAda]" by simp
  have e: "normalizeEmail (a_email exAda) = normalizeEmail (r_email exAdaAgain)"
    by (simp add: exAdaAgain_def exAda_def normalizeEmail_example normalizeEmail_lower_example)
  have v: "r_firstName exAdaAgain \<noteq> [] \<and> r_lastName exAdaAgain \<noteq> [] \<and> r_email exAdaAgain \<noteq> []"
    by (simp add: exAdaAgain_def)
  have "snd (POST_register 1700000000001 1700000000001 exAdaAgain exStore) = exStore
      \<and> fst (POST_register 1700000000001 1700000000001 exAdaAgain exStore) =
          Error 409 ''An attendee with this email is already registered.''"
    using register_duplicate_email_conflict [OF f m e, of 1700000000001 1700000000001] v by blast
  then have "POST_register 1700000000001 1700000000001 exAdaAgain exStore =
     (Error 409 ''An attendee with this email is already registered.'', exStore)"
    by (cases "POST_register 1700000000001 1700000000001 exAdaAgain exStore") simp
  then show ?thesis using f e by blast
qed

section \<open>C4: the ids of new attendees\<close>

text \<open>
  What a registration that passes the required-field test and finds no attendee with its
  email does: it answers 201 with the new attendee and \<open>"hemisphere:" + id\<close>, and the file
  is the old list with the new attendee at its end, one entry longer.
\<close>

lemma register_created:
  assumes "r_firstName body \<noteq> []" and "r_lastName body \<noteq> []" and "r_email body \<noteq> []"
    and "readAttendees (attendeesFile s) = Some xs"
    and "\<forall>a\<in>set xs. normalizeEmail (a_email a) \<noteq> normalizeEmail (r_email body)"
  shows "\<exists>new. POST_register now stamp body s =
           (Reply 201 (new, ''hemisphere:'' @ a_id new), s\<lparr>attendeesFile := Content (xs @ [new])\<rparr>)
         \<and> a_id new = String_of_nat now
         \<and> a_email new = normalizeEmail (r_email body)
         \<and> length (xs @ [new]) = length xs + 1"
proof -
  have "find (\<lambda>a. normalizeEmail (a_email a) = normalizeEmail (r_email body)) xs = None"
    using assms(5) by (simp add: find_None_iff)
  then show ?thesis
    using assms(1-4) by (simp add: POST_register_def Let_def)
qed

text \<open>The new id differs from every id in the store that was made at another instant.\<close>

lemma register_id_fresh:
  assumes "\<forall>a\<in>set xs. \<exists>t. a_id a = String_of_nat t \<and> t \<noteq> now"
  shows "String_of_nat now \<notin> a_id ` set xs"
  using assms String_of_nat_inj by force

lemma findIndex_append_fresh:
  "\<forall>x\<in>set xs. \<not> p x \<Longrightarrow> p y \<Longrightarrow> findIndex p (xs @ [y]) = Some (length xs)"
  by (induction xs) auto

text \<open>
  The end-to-end example in general: the badge payload that a registration returns, scanned
  against the store that the registration left, checks the new attendee in and logs the
  scan, provided the id is new to the store and the scan-log file exists and parses.
\<close>

lemma register_then_scan:
  assumes "r_firstName body \<noteq> []" and "r_lastName body \<noteq> []" and "r_email body \<noteq> []"
    and "readAttendees (attendeesFile s) = Some xs"
    and "\<forall>a\<in>set xs. normalizeEmail (a_email a) \<noteq> normalizeEmail (r_email body)"
    and "\<forall>a\<in>set xs. a_id a \<noteq> String_of_nat now"
    and "scanLogFile s = Content logs"
    and "POST_register now stamp body s = (Reply 201 (new, qrValue), s')"
  shows "snd (handleScanResult clk qrValue u s') =
         s\<lparr>attendeesFile := Content (xs @
               [new\<lparr>a_checkedIn := True, a_checkedInAt := Some (atCheckin clk)\<rparr>]),
           scanLogFile := Content (logs @
             [\<lparr> s_id = atLogId clk, s_attendeeId = a_id new,
                s_attendeeName = displayNameOf (withName new),
                s_attendeeEmail = a_email new,
                s_method = ''scan'', s_timestamp = atLogStamp clk \<rparr>])\<rparr>"
proof -
  from register_created [OF assms(1-5), of now stamp]
  obtain n where "POST_register now stamp body s =
           (Reply 201 (n, ''hemisphere:'' @ a_id n), s\<lparr>attendeesFile := Content (xs @ [n])\<rparr>)
         \<and> a_id n = String_of_nat now
         \<and> a_email n = normalizeEmail (r_email body)
         \<and> length (xs @ [n]) = length xs + 1" ..
  then have n: "POST_register now stamp body s =
           (Reply 201 (n, ''hemisphere:'' @ a_id n), s\<lparr>attendeesFile := Content (xs @ [n])\<rparr>)"
      "a_id n = String_of_nat now" by simp_all
  with assms(8) have eq: "new = n" "qrValue = ''hemisphere:'' @ a_id n"
      "s' = s\<lparr>attendeesFile := Content (xs @ [n])\<rparr>" by auto
  have fresh: "\<not> a_checkedIn n"
    using n(1) assms(1-3) by (auto simp: POST_register_def Let_def split: option.splits)
  have a: "attendeesFile s' = Content (xs @ [n])" by (simp add: eq)
  have l: "scanLogFile s' = Content logs" using assms(7) by (simp add: eq)
  have f: "findIndex (\<lambda>a. a_id a = a_id n) (xs @ [n]) = Some (length xs)"
    using assms(6) n(2) by (intro findIndex_append_fresh) simp_all
  have p: "a_id n \<noteq> []" "CHR '':'' \<notin> set (a_id n)" "\<not> isWhiteSpace (last (a_id n))"
    using String_of_nat_plain [of now] n(2) by simp_all
  have u: "\<not> a_checkedIn ((xs @ [n]) ! length xs)" using fresh by simp
  show ?thesis
    using scan_first [OF a l f p u, of clk u] by (simp add: eq)
qed

text \<open>
  C4. The id of a new attendee is \<open>String(Date.now())\<close>, which the route's comment calls a
  unique id. Two registrations with different emails that read the same millisecond from
  the clock both succeed with 201, and the store then holds two attendees with one id;
  the attendee route resolves that id, which is on both badges, to the first of them.
\<close>

theorem register_same_millisecond_same_id:
  "POST_register 1700000000000 1700000000000 exAdaRequest exEmpty
     = (Reply 201 (exAda, ''hemisphere:1700000000000''), exEmpty\<lparr>attendeesFile := Content [exAda]\<rparr>)
   \<and> POST_register 1700000000000 1700000000000 exBobRequest
        (exEmpty\<lparr>attendeesFile := Content [exAda]\<rparr>)
     = (Reply 201 (exBob, ''hemisphere:1700000000000''),
        exEmpty\<lparr>attendeesFile := Content [exAda, exBob]\<rparr>)
   \<and> a_id exBob = a_id exAda
   \<and> GET_attendee (a_id exBob) (exEmpty\<lparr>attendeesFile := Content [exAda, exBob]\<rparr>)
     = Reply 200 (withName exAda)"
proof -
  have 1: "POST_register 1700000000000 1700000000000 exAdaRequest exEmpty
     = (Reply 201 (exAda, ''hemisphere:1700000000000''), exEmpty\<lparr>attendeesFile := Content [exAda]\<rparr>)"
    by (simp add: POST_register_def exAdaRequest_def exEmpty_def readAttendees_def
        normalizeEmail_lower_example String_of_nat_example exAda_def Let_def)
  have 2: "POST_register 1700000000000 1700000000000 exBobRequest
        (exEmpty\<lparr>attendeesFile := Content [exAda]\<rparr>)
     = (Reply 201 (exBob, ''hemisphere:1700000000000''),
        exEmpty\<lparr>attendeesFile := Content [exAda, exBob]\<rparr>)"
    by (simp add: POST_register_def exBobRequest_def exEmpty_def readAttendees_def
        normalizeEmail_lower_example normalizeEmail_bob String_of_nat_example exAda_def exBob_def Let_def)
  have 3: "a_id exBob = a_id exAda" by (simp add: exBob_def exAda_def)
  have idp: "idOfParam ''1700000000000'' = ''1700000000000''"
    by (rule idOfParam_plain) simp
  have 4: "GET_attendee (a_id exBob) (exEmpty\<lparr>attendeesFile := Content [exAda, exBob]\<rparr>)
     = Reply 200 (withName exAda)"
    by (simp add: GET_attendee_def exBob_def idp) (simp add: exAda_def)
  show ?thesis using 1 2 3 4 by blast
qed

section \<open>C5: absent and corrupt store files\<close>

lemma leads_read_fails_open:
  assumes "leadsFile s = Missing \<or> leadsFile s = Corrupt"
  shows "GET_leads s = Reply 200 []"
  using assms by (auto simp: GET_leads_def readLeadsFile_def)

lemma leads_write_fails_open:
  assumes "leadsFile s = Missing \<or> leadsFile s = Corrupt"
  shows "\<exists>new. POST_leads now stamp req s = (Reply 201 new, s\<lparr>leadsFile := Content [new]\<rparr>)"
  using assms by (auto simp: POST_leads_def readLeadsFile_def Let_def)

lemma export_fails_open:
  assumes "scanLogFile s = Missing \<or> scanLogFile s = Corrupt"
  shows "GET_scanlog_export toISOString s =
           Reply 200 ''id,attendeeId,attendeeName,attendeeEmail,timestamp''"
  using assms by (auto simp: GET_scanlog_export_def exportLogs_def csvLines_def header_line)

lemma scanlog_read_fails_closed:
  assumes "scanLogFile s = Missing \<or> scanLogFile s = Corrupt"
  shows "GET_scanlog s = Error 500 ''Cannot read scan logs''"
  using assms by (auto simp: GET_scanlog_def)

lemma scanlog_write_fails_closed:
  assumes "scanLogFile s = Missing \<or> scanLogFile s = Corrupt"
  shows "POST_scanlog now stamp b s = (Error 500 ''Unable to save scan'', s)"
  using assms by (auto simp: POST_scanlog_def Let_def)

lemma attendees_list_read:
  "(attendeesFile s = Missing \<longrightarrow> GET_attendees s = Reply 200 [])
   \<and> (attendeesFile s = Corrupt \<longrightarrow> GET_attendees s = Error 500 ''Error reading attendees'')"
  by (simp add: GET_attendees_def)

lemma attendee_routes_fail_closed:
  assumes "attendeesFile s = Missing \<or> attendeesFile s = Corrupt"
  shows "GET_attendee rawId s = Error 500 ''Error reading attendee''
       \<and> PATCH_attendee rawId payload s = (Error 500 ''Error updating attendee'', s)
       \<and> POST_checkin stamp cb s = (Error 500 ''Error saving check-in'', s)"
  using assms by (auto simp: GET_attendee_def PATCH_attendee_def POST_checkin_def Let_def)

lemma register_on_failed_read:
  assumes "r_firstName body \<noteq> []" and "r_lastName body \<noteq> []" and "r_email body \<noteq> []"
  shows "(attendeesFile s = Corrupt \<longrightarrow>
           POST_register now stamp body s = (Error 500 ''Server error while registering attendee'', s))
       \<and> (attendeesFile s = Missing \<longrightarrow>
           (\<exists>new. POST_register now stamp body s =
              (Reply 201 (new, ''hemisphere:'' @ a_id new), s\<lparr>attendeesFile := Content [new]\<rparr>)))"
  using assms by (auto simp: POST_register_def readAttendees_def Let_def)

lemma request_link_on_failed_read:
  assumes "toLowerCase (trim e) \<noteq> []"
  shows "(tokensFile s = Corrupt \<longrightarrow>
           POST_request_link now uuid e s = (Error 500 ''Error issuing login link'', s))
       \<and> (tokensFile s = Missing \<longrightarrow>
           (\<exists>reply new. POST_request_link now uuid e s =
              (Reply 200 reply, s\<lparr>tokensFile := Content [new]\<rparr>)))"
  using assms by (auto simp: POST_request_link_def readTokens_def Let_def)

text \<open>
  C5, as stated, fails on both halves. \<open>GET /api/scanlog\<close> answers 500 when the scan-log
  file is absent, it does not answer with an empty list; and \<open>POST /api/leads\<close> on a leads
  file with corrupt JSON answers 201 and writes a file that holds the new lead alone.
\<close>

theorem storage_failure_asymmetry_counterexample:
  "scanLogFile exEmpty = Missing
   \<and> GET_scanlog exEmpty = Error 500 ''Cannot read scan logs''
   \<and> leadsFile (exEmpty\<lparr>leadsFile := Corrupt\<rparr>) = Corrupt
   \<and> POST_leads 1700000000005 1700000000005 \<lparr>authorization = None, json = exLeadBody\<rparr>
         (exEmpty\<lparr>leadsFile := Corrupt\<rparr>)
       = (Reply 201 exLead, exEmpty\<lparr>leadsFile := Content [exLead]\<rparr>)"
  by (simp add: GET_scanlog_def POST_leads_def readLeadsFile_def Let_def exEmpty_def
      exLeadBody_def exLead_def)

text \<open>
  C5, amended. What a route does with an absent file or with corrupt JSON is the route's
  own choice. Reads: \<open>GET /api/leads\<close> and the scan-log CSV export treat both as an empty
  collection; \<open>GET /api/attendees\<close> treats an absent file as empty and answers 500 for
  corrupt JSON; \<open>GET /api/scanlog\<close> and \<open>GET /api/attendees/[id]\<close> answer 500 for both.
  Writes: \<open>POST /api/scanlog\<close>, \<open>POST /api/checkin\<close> and \<open>PATCH /api/attendees/[id]\<close>
  answer 500 for both and leave the store as it is; \<open>POST /api/register\<close> and
  \<open>POST /api/exhibitors/request-link\<close>, given a request they accept, answer 500 for corrupt
  JSON and start a new file when there is none; \<open>POST /api/leads\<close> answers 201 for both
  and writes a file with the new lead alone.
\<close>

theorem storage_failure_by_route:
  "(leadsFile s = Missing \<or> leadsFile s = Corrupt \<longrightarrow>
      GET_leads s = Reply 200 []
      \<and> (\<exists>new. POST_leads now stamp req s = (Reply 201 new, s\<lparr>leadsFile := Content [new]\<rparr>)))
   \<and> (scanLogFile s = Missing \<or> scanLogFile s = Corrupt \<longrightarrow>
      GET_scanlog_export toISOString s = Reply 200 ''id,attendeeId,attendeeName,attendeeEmail,timestamp''
      \<and> GET_scanlog s = Error 500 ''Cannot read scan logs''
      \<and> POST_scanlog now stamp logged s = (Error 500 ''Unable to save scan'', s))
   \<and> (attendeesFile s = Missing \<longrightarrow> GET_attendees s = Reply 200 [])
   \<and> (attendeesFile s = Corrupt \<longrightarrow> GET_attendees s = Error 500 ''Error reading attendees'')
   \<and> (attendeesFile s = Missing \<or> attendeesFile s = Corrupt \<longrightarrow>
      GET_attendee rawId s = Error 500 ''Error reading attendee''
      \<and> PATCH_attendee rawId payload s = (Error 500 ''Error updating attendee'', s)
      \<and> POST_checkin stamp checkin s = (Error 500 ''Error saving check-in'', s))
   \<and> (r_firstName body \<noteq> [] \<and> r_lastName body \<noteq> [] \<and> r_email body \<noteq> [] \<longrightarrow>
      (attendeesFile s = Corrupt \<longrightarrow>
         POST_register now stamp body s = (Error 500 ''Server error while registering attendee'', s))
      \<and> (attendeesFile s = Missing \<longrightarrow>
         (\<exists>new. POST_register now stamp body s =
            (Reply 201 (new, ''hemisphere:'' @ a_id new), s\<lparr>attendeesFile := Content [new]\<rparr>))))
   \<and> (toLowerCase (trim e) \<noteq> [] \<longrightarrow>
      (tokensFile s = Corrupt \<longrightarrow>
         POST_request_link now uuid e s = (Error 500 ''Error issuing login link'', s))
      \<and> (tokensFile s = Missing \<longrightarrow>
         (\<exists>reply new. POST_request_link now uuid e s =
            (Reply 200 reply, s\<lparr>tokensFile := Content [new]\<rparr>))))"
  using leads_read_fails_open [of s] leads_write_fails_open [of s now stamp req]
    export_fails_open [of s toISOString] scanlog_read_fails_closed [of s]
    scanlog_write_fails_closed [of s now stamp logged] attendees_list_read [of s]
    attendee_routes_fail_closed [of s rawId payload stamp checkin]
    register_on_failed_read [of body s now stamp]
    request_link_on_failed_read [of e s now uuid]
  by blast

theorem storage_failure_by_route_witness:
  "leadsFile exEmpty = Missing \<and> scanLogFile exEmpty = Missing \<and> attendeesFile exEmpty = Missing
   \<and> GET_leads exEmpty = Reply 200 []
   \<and> GET_scanlog exEmpty = Error 500 ''Cannot read scan logs''
   \<and> POST_scanlog 1700000000005 1700000000005 exScanBody exEmpty
       = (Error 500 ''Unable to save scan'', exEmpty)
   \<and> GET_attendees exEmpty = Reply 200 []
   \<and> POST_checkin 1700000000005 \<lparr>c_id = ''1700000000000'', c_checkedIn = None\<rparr> exEmpty
       = (Error 500 ''Error saving check-in'', exEmpty)"
proof -
  have f: "leadsFile exEmpty = Missing" "scanLogFile exEmpty = Missing"
    "attendeesFile exEmpty = Missing"
    by (simp_all add: exEmpty_def)
  show ?thesis
    using storage_failure_by_route [of exEmpty 1700000000005 1700000000005
        "\<lparr>authorization = None, json = exLeadBody\<rparr>" "\<lambda>t. []" exScanBody
        "''1700000000000''" "\<lparr>p_firstName = None, p_lastName = None, p_email = None,
           p_company = None, p_eventId = None\<rparr>"
        "\<lparr>c_id = ''1700000000000'', c_checkedIn = None\<rparr>" exAdaRequest "''booth@acme.example''"
        "''uuid-1''"] f
    by blast
qed

section \<open>C6: the CSV export of the scan log\<close>

lemma unescape_escapeQuotes: "unescapeQuotes (escapeQuotes v) = Some v"
proof (induction v)
  case Nil
  then show ?case by (simp add: escapeQuotes_def)
next
  case (Cons c v)
  have e: "escapeQuotes (c # v) =
             (if c = CHR 0x22 then [CHR 0x22, CHR 0x22] else [c]) @ escapeQuotes v"
    by (simp add: escapeQuotes_def)
  show ?case
  proof (cases "c = CHR 0x22")
    case True
    then show ?thesis using Cons e by simp
  next
    case False
    then show ?thesis using Cons e by (cases "escapeQuotes v") simp_all
  qed
qed

lemma csvCell_shape:
  "\<exists>inner. csvCell v = [CHR 0x22] @ inner @ [CHR 0x22] \<and> unescapeQuotes inner = Some v"
  by (simp add: csvCell_def Let_def unescape_escapeQuotes)

lemma set_escapeQuotes: "set (escapeQuotes v) \<subseteq> insert (CHR 0x22) (set v)"
  by (induction v) (auto simp: escapeQuotes_def)

lemma set_csvCell: "set (csvCell v) \<subseteq> insert (CHR 0x22) (set v)"
  using set_escapeQuotes [of v] by (auto simp: csvCell_def Let_def)

lemma csvRow_no_newline:
  assumes "\<forall>v\<in>set (rowValues toISOString l). CHR 0x0A \<notin> set v"
  shows "CHR 0x0A \<notin> set (csvRow toISOString l)"
proof
  assume "CHR 0x0A \<in> set (csvRow toISOString l)"
  then have "CHR 0x0A \<in> set '','' \<union> (\<Union>x\<in>set (map csvCell (rowValues toISOString l)). set x)"
    using set_join [of "'',''" "map csvCell (rowValues toISOString l)"]
    unfolding csvRow_def by blast
  then obtain v where v: "v \<in> set (rowValues toISOString l)" "CHR 0x0A \<in> set (csvCell v)"
    by auto
  then have "CHR 0x0A \<in> insert (CHR 0x22) (set v)" using set_csvCell by blast
  then show False using assms v(1) by simp
qed

text \<open>
  C6. For a scan log of \<open>n\<close> entries the export answers 200 with the lines, joined by line
  feeds, of the fixed header \<open>id,attendeeId,attendeeName,attendeeEmail,timestamp\<close> and of
  \<open>n\<close> rows, the \<open>i\<close>-th of them the comma-joined cells of the \<open>i\<close>-th entry's id,
  attendeeId, attendeeName, attendeeEmail and timestamp. Every cell is a double quote, an
  inside, and a double quote, where the inside reads back as the value when two double
  quotes are read as one, and has no double quote on its own. When no value holds a line
  feed, the text splits at its line feeds into exactly the header and the \<open>n\<close> rows.
\<close>

theorem scanlog_export_rows_and_quoting:
  assumes "scanLogFile s = Content logs"
  shows "\<exists>rows. GET_scanlog_export toISOString s =
             Reply 200 (join [CHR 0x0A] (''id,attendeeId,attendeeName,attendeeEmail,timestamp'' # rows))
         \<and> length rows = length logs
         \<and> (\<forall>i<length logs. rows ! i = join '','' (map csvCell
               [String_of_nat (s_id (logs ! i)), s_attendeeId (logs ! i), s_attendeeName (logs ! i),
                s_attendeeEmail (logs ! i), toISOString (s_timestamp (logs ! i))]))
         \<and> (\<forall>v. \<exists>inner. csvCell v = [CHR 0x22] @ inner @ [CHR 0x22] \<and> unescapeQuotes inner = Some v)
         \<and> ((\<forall>l\<in>set logs. \<forall>v\<in>set (rowValues toISOString l). CHR 0x0A \<notin> set v) \<longrightarrow>
              split (CHR 0x0A) (join [CHR 0x0A]
                 (''id,attendeeId,attendeeName,attendeeEmail,timestamp'' # rows))
              = ''id,attendeeId,attendeeName,attendeeEmail,timestamp'' # rows)"
proof -
  let ?h = "''id,attendeeId,attendeeName,attendeeEmail,timestamp''"
  let ?rows = "map (csvRow toISOString) logs"
  have body: "GET_scanlog_export toISOString s = Reply 200 (join [CHR 0x0A] (?h # ?rows))"
    using assms by (simp add: GET_scanlog_export_def exportLogs_def csvLines_def header_line)
  have len: "length ?rows = length logs" by simp
  have row: "\<forall>i<length logs. ?rows ! i = join '','' (map csvCell
               [String_of_nat (s_id (logs ! i)), s_attendeeId (logs ! i), s_attendeeName (logs ! i),
                s_attendeeEmail (logs ! i), toISOString (s_timestamp (logs ! i))])"
    by (simp add: csvRow_def rowValues_def)
  have cell: "\<forall>v. \<exists>inner. csvCell v = [CHR 0x22] @ inner @ [CHR 0x22] \<and> unescapeQuotes inner = Some v"
    using csvCell_shape by blast
  have lines: "(\<forall>l\<in>set logs. \<forall>v\<in>set (rowValues toISOString l). CHR 0x0A \<notin> set v) \<longrightarrow>
              split (CHR 0x0A) (join [CHR 0x0A] (?h # ?rows)) = ?h # ?rows"
  proof
    assume nl: "\<forall>l\<in>set logs. \<forall>v\<in>set (rowValues toISOString l). CHR 0x0A \<notin> set v"
    have "CHR 0x0A \<notin> set ?h" by simp
    moreover have "\<forall>r\<in>set ?rows. CHR 0x0A \<notin> set r"
      using nl csvRow_no_newline by auto
    ultimately have "\<forall>x\<in>set (?h # ?rows). CHR 0x0A \<notin> set x" by auto
    then show "split (CHR 0x0A) (join [CHR 0x0A] (?h # ?rows)) = ?h # ?rows"
      by (intro split_join) simp_all
  qed
  show ?thesis
    using body len row cell lines by (intro exI [of _ ?rows]) blast
qed

theorem scanlog_export_rows_and_quoting_witness:
  "scanLogFile (exStore\<lparr>scanLogFile := Content exLogs\<rparr>) = Content exLogs
   \<and> (\<exists>rows. GET_scanlog_export exISO (exStore\<lparr>scanLogFile := Content exLogs\<rparr>) =
             Reply 200 (join [CHR 0x0A] (''id,attendeeId,attendeeName,attendeeEmail,timestamp'' # rows))
         \<and> length rows = 2)"
proof -
  have c: "scanLogFile (exStore\<lparr>scanLogFile := Content exLogs\<rparr>) = Content exLogs" by simp
  have l: "length exLogs = 2" by (simp add: exLogs_def)
  show ?thesis
    using scanlog_export_rows_and_quoting [OF c, of exISO] c l by metis
qed

text \<open>
  The example of the specification: a log of two entries, the second for the attendee
  named \<open>O"Brien\<close>.
\<close>

lemma csvCell_example: \<open>csvCell ''O"Brien'' = ''"O""Brien"''\<close>
  by (simp add: csvCell_def escapeQuotes_def)

lemma scanlog_export_example:
  \<open>csvLines exISO exLogs =
     [''id,attendeeId,attendeeName,attendeeEmail,timestamp'',
      ''"1700000000006","1700000000000","Ada Lovelace","ada@x.com","2023-11-14T22:13:20.007Z"'',
      ''"1700000000016","1700000000001","O""Brien","ob@x.com","2023-11-14T22:13:20.017Z"'']\<close>
  by (simp add: csvLines_def csvRow_def rowValues_def exLogs_def exISO_def header_line
      csvCell_def escapeQuotes_def String_of_nat.simps digitChar_values)

section \<open>C7: the check-in route by itself\<close>

lemma scan_checked_in_keeps_attendees:
  assumes "attendeesFile s = Content xs"
    and "findIndex (\<lambda>a. a_id a = ident) xs = Some i"
    and "ident \<noteq> []" and "CHR '':'' \<notin> set ident" and "\<not> isWhiteSpace (last ident)"
    and "a_checkedIn (xs ! i)"
  shows "attendeesFile (snd (handleScanResult clk (''hemisphere:'' @ ident) u s)) = attendeesFile s"
proof -
  have id: "orEmpty (pop (split CHR '':'' (''hemisphere:'' @ ident))) = ident"
    by (rule ident_of_payload [OF assms(3,5,4)])
  have look: "lookupById ident s = Some (withName (xs ! i))"
    by (rule lookupById_found [OF assms(1,2,4)])
  show ?thesis
    unfolding handleScanResult_def
    by (simp add: Let_def trim_payload [OF assms(3,5)] startsWith_payload id assms(3) look
        assms(6) del: append.simps)
qed

text \<open>
  C7. Take the attendee at position \<open>i\<close> of the attendees file, already checked in, whose
  id is the id of the request and is the id of no earlier entry. A request to
  \<open>POST /api/checkin\<close> with \<open>checkedIn\<close> true (or absent) writes the instant of the
  request over this attendee's \<open>checkedInAt\<close> and changes nothing else; unless
  \<open>checkedInAt\<close> was that very instant the file is not what it was, so the route is not
  idempotent on \<open>checkedInAt\<close>. The scanner page, given the same attendee, does not change
  the attendees file: the timestamp survives a repeated scan because the page skips the
  request, not because the route keeps it.
\<close>

theorem checkin_overwrites_checkedInAt:
  assumes "attendeesFile s = Content xs"
    and "i < length xs" and "a_id (xs ! i) = c_id body"
    and "\<forall>j<i. a_id (xs ! j) \<noteq> c_id body"
    and "c_checkedIn body \<noteq> Some False"
    and "a_checkedIn (xs ! i)"
  shows "snd (POST_checkin stamp body s) =
           s\<lparr>attendeesFile := Content (xs[i := (xs ! i)\<lparr>a_checkedInAt := Some stamp\<rparr>])\<rparr>
       \<and> (a_checkedInAt (xs ! i) \<noteq> Some stamp \<longrightarrow>
            attendeesFile (snd (POST_checkin stamp body s)) \<noteq> attendeesFile s)
       \<and> (c_id body \<noteq> [] \<and> CHR '':'' \<notin> set (c_id body) \<and> \<not> isWhiteSpace (last (c_id body))
            \<longrightarrow> attendeesFile (snd (handleScanResult clk (''hemisphere:'' @ c_id body) u s))
                 = attendeesFile s)"
proof -
  have f: "findIndex (\<lambda>a. a_id a = c_id body) xs = Some i"
    using assms(2-4) by (intro findIndex_first) simp_all
  have same: "(xs ! i)\<lparr>a_checkedIn := True, a_checkedInAt := Some stamp\<rparr>
              = (xs ! i)\<lparr>a_checkedInAt := Some stamp\<rparr>"
    using assms(6) by simp
  have flag: "(case c_checkedIn body of None \<Rightarrow> True | Some b \<Rightarrow> b)"
    using assms(5) by (cases "c_checkedIn body") auto
  have post: "snd (POST_checkin stamp body s) =
           s\<lparr>attendeesFile := Content (xs[i := (xs ! i)\<lparr>a_checkedInAt := Some stamp\<rparr>])\<rparr>"
    using assms(1) f flag same by (simp add: POST_checkin_def Let_def)
  have "a_checkedInAt (xs ! i) \<noteq> Some stamp \<Longrightarrow>
          xs[i := (xs ! i)\<lparr>a_checkedInAt := Some stamp\<rparr>] \<noteq> xs"
  proof
    assume ne: "a_checkedInAt (xs ! i) \<noteq> Some stamp"
      and eq: "xs[i := (xs ! i)\<lparr>a_checkedInAt := Some stamp\<rparr>] = xs"
    have "a_checkedInAt (xs[i := (xs ! i)\<lparr>a_checkedInAt := Some stamp\<rparr>] ! i) = Some stamp"
      using assms(2) by simp
    with eq ne show False by simp
  qed
  then have changed: "a_checkedInAt (xs ! i) \<noteq> Some stamp \<longrightarrow>
      attendeesFile (snd (POST_checkin stamp body s)) \<noteq> attendeesFile s"
    using post assms(1) by simp
  have guard: "c_id body \<noteq> [] \<and> CHR '':'' \<notin> set (c_id body) \<and> \<not> isWhiteSpace (last (c_id body))
            \<longrightarrow> attendeesFile (snd (handleScanResult clk (''hemisphere:'' @ c_id body) u s))
                 = attendeesFile s"
    using scan_checked_in_keeps_attendees [OF assms(1) f _ _ _ assms(6)] by blast
  show ?thesis using post changed guard by blast
qed

theorem checkin_overwrites_checkedInAt_witness:
  "a_id ([exGrace, exAda\<lparr>a_checkedIn := True, a_checkedInAt := Some 5\<rparr>] ! 1) = ''1700000000000''
   \<and> a_id ([exGrace, exAda\<lparr>a_checkedIn := True, a_checkedInAt := Some 5\<rparr>] ! 0) \<noteq> ''1700000000000''
   \<and> snd (POST_checkin 99 \<lparr>c_id = ''1700000000000'', c_checkedIn = None\<rparr>
         (exTwoStore\<lparr>attendeesFile :=
            Content [exGrace, exAda\<lparr>a_checkedIn := True, a_checkedInAt := Some 5\<rparr>]\<rparr>))
     = exTwoStore\<lparr>attendeesFile :=
            Content [exGrace, exAda\<lparr>a_checkedIn := True, a_checkedInAt := Some 99\<rparr>]\<rparr>
   \<and> attendeesFile (snd (handleScanResult \<lparr>atCheckin = 99, atLogId = 100, atLogStamp = 101\<rparr>
         ''hemisphere:1700000000000'' exUi
         (exTwoStore\<lparr>attendeesFile :=
            Content [exGrace, exAda\<lparr>a_checkedIn := True, a_checkedInAt := Some 5\<rparr>]\<rparr>)))
     = Content [exGrace, exAda\<lparr>a_checkedIn := True, a_checkedInAt := Some 5\<rparr>]"
proof -
  let ?xs = "[exGrace, exAda\<lparr>a_checkedIn := True, a_checkedInAt := Some 5\<rparr>]"
  let ?s = "exTwoStore\<lparr>attendeesFile := Content ?xs\<rparr>"
  let ?b = "\<lparr>c_id = ''1700000000000'', c_checkedIn = None\<rparr>"
  have ws: "\<not> isWhiteSpace (last ''1700000000000'')" by (simp add: isWhiteSpace_def)
  have a: "attendeesFile ?s = Content ?xs" by simp
  have i: "(1::nat) < length ?xs" by simp
  have t: "a_id (?xs ! 1) = c_id ?b" by (simp add: exAda_def)
  have g: "a_id (?xs ! 0) \<noteq> ''1700000000000''" by (simp add: exGrace_def)
  have e: "\<forall>j<1. a_id (?xs ! j) \<noteq> c_id ?b" using g by simp
  have d: "c_checkedIn ?b \<noteq> Some False" by simp
  have c: "a_checkedIn (?xs ! 1)" by simp
  show ?thesis
    using checkin_overwrites_checkedInAt [OF a i t e d c, of 99
        "\<lparr>atCheckin = 99, atLogId = 100, atLogStamp = 101\<rparr>" exUi] ws g
    by (simp add: exAda_def)
qed

section \<open>C8: login links\<close>

text \<open>
  C8. A login-link request whose email is not empty once trimmed, on a tokens file that is
  absent or parsable, answers 200 with an \<open>expiresAt\<close> of exactly 3600000 milliseconds
  after the instant \<open>now\<close> of the request. The file it writes is the old records whose
  \<open>expiresAt\<close> is after \<open>now\<close>, in their order, followed by the new record: no record of it
  has an \<open>expiresAt\<close> at or before \<open>now\<close>. Every other route that writes, and both handlers
  of the scanner page, leave the tokens file as it is.
\<close>

theorem request_link_expiry_and_pruning:
  assumes "toLowerCase (trim e) \<noteq> []" and "readTokens (tokensFile s) = Some tokens"
  shows "POST_request_link now uuid e s =
           (Reply 200 \<lparr> loginUrl = ''/exhibitors?token='' @ uuid,
                         expiresAt = now + 3600000,
                         email = toLowerCase (trim e) \<rparr>,
            s\<lparr>tokensFile := Content (filter (\<lambda>t. now < t_expiresAt t) tokens @
               [\<lparr> t_email = toLowerCase (trim e), t_token = uuid,
                  t_expiresAt = now + 3600000 \<rparr>])\<rparr>)
       \<and> (\<exists>written. tokensFile (snd (POST_request_link now uuid e s)) = Content written
            \<and> (\<forall>t\<in>set written. now < t_expiresAt t)
            \<and> (\<forall>t\<in>set tokens. now < t_expiresAt t \<longrightarrow> t \<in> set written))
       \<and> tokensFile (snd (POST_register n1 n2 registration s)) = tokensFile s
       \<and> tokensFile (snd (POST_checkin n1 checkin s)) = tokensFile s
       \<and> tokensFile (snd (PATCH_attendee rawId payload s)) = tokensFile s
       \<and> tokensFile (snd (POST_scanlog n1 n2 logged s)) = tokensFile s
       \<and> tokensFile (snd (POST_leads n1 n2 capture s)) = tokensFile s
       \<and> tokensFile (snd (handleScanResult clk raw u s)) = tokensFile s
       \<and> tokensFile (snd (handleManualCheckin clk manualName u s)) = tokensFile s"
proof -
  let ?new = "\<lparr> t_email = toLowerCase (trim e), t_token = uuid, t_expiresAt = now + 3600000 \<rparr>"
  let ?written = "filter (\<lambda>t. now < t_expiresAt t) tokens @ [?new]"
  have post: "POST_request_link now uuid e s =
           (Reply 200 \<lparr> loginUrl = ''/exhibitors?token='' @ uuid,
                         expiresAt = now + 3600000,
                         email = toLowerCase (trim e) \<rparr>,
            s\<lparr>tokensFile := Content ?written\<rparr>)"
    using assms by (simp add: POST_request_link_def Let_def)
  have wrote: "tokensFile (snd (POST_request_link now uuid e s)) = Content ?written"
    by (simp add: post)
  have live: "\<forall>t\<in>set ?written. now < t_expiresAt t" by auto
  have kept: "\<forall>t\<in>set tokens. now < t_expiresAt t \<longrightarrow> t \<in> set ?written" by simp
  have "\<exists>written. tokensFile (snd (POST_request_link now uuid e s)) = Content written
            \<and> (\<forall>t\<in>set written. now < t_expiresAt t)
            \<and> (\<forall>t\<in>set tokens. now < t_expiresAt t \<longrightarrow> t \<in> set written)"
    using wrote live kept by blast
  then show ?thesis using post by simp
qed

theorem request_link_expiry_and_pruning_witness:
  "toLowerCase (trim '' Booth@Acme.example '') = ''booth@acme.example''
   \<and> readTokens (Content [exExpiredToken, exLiveToken]) = Some [exExpiredToken, exLiveToken]
   \<and> POST_request_link 1700000000005 ''uuid-1'' '' Booth@Acme.example ''
        (exTokenStore\<lparr>tokensFile := Content [exExpiredToken, exLiveToken]\<rparr>)
      = (Reply 200 \<lparr> loginUrl = ''/exhibitors?token=uuid-1'', expiresAt = 1700003600005,
                      email = ''booth@acme.example'' \<rparr>,
         exTokenStore\<lparr>tokensFile := Content
           [exLiveToken,
            \<lparr> t_email = ''booth@acme.example'', t_token = ''uuid-1'',
               t_expiresAt = 1700003600005 \<rparr>]\<rparr>)"
proof -
  have n: "toLowerCase (trim '' Booth@Acme.example '') = ''booth@acme.example''"
    by (simp add: trim_def trimStart_def trimEnd_def isWhiteSpace_def toLowerCase_def
        lowerChar_def char_of_def bit_0)
  have r: "readTokens (tokensFile (exTokenStore\<lparr>tokensFile := Content [exExpiredToken, exLiveToken]\<rparr>))
           = Some [exExpiredToken, exLiveToken]"
    by (simp add: readTokens_def)
  have ne: "toLowerCase (trim '' Booth@Acme.example '') \<noteq> []" by (simp only: n) simp
  show ?thesis
    using request_link_expiry_and_pruning [OF ne r, of 1700000000005 "''uuid-1''"] n
    by (simp add: readTokens_def exExpiredToken_def exLiveToken_def)
qed

section \<open>C9: manual check-in without a match\<close>

text \<open>
  C9. A manual check-in whose typed name, trimmed and lower-cased, is a substring of the
  lower-cased \<open>"first last"\<close> name of no attendee in the store (the attendees file being
  parsable, or absent and so empty) leaves the whole store as it was: no attendee is
  changed and the scan log gains no entry. For a name that is not blank the page shows no
  attendee and is in the error state with \<open>No attendee found matching "<name>".\<close>; for a
  blank name, which is a substring of every name, it only shows the request to type one.
\<close>

theorem manual_checkin_without_match:
  assumes "readAttendees (attendeesFile s) = Some xs"
    and "\<forall>a\<in>set xs. \<not> includes_str (toLowerCase (fullNameOf a)) (toLowerCase (trim manualName))"
  shows "snd (handleManualCheckin clk manualName u s) = s
       \<and> (trim manualName \<noteq> [] \<longrightarrow>
            scanState (fst (handleManualCheckin clk manualName u s)) = ErrorState
            \<and> attendee (fst (handleManualCheckin clk manualName u s)) = None
            \<and> message (fst (handleManualCheckin clk manualName u s)) =
                ''No attendee found matching '' @ [CHR 0x22] @ trim manualName @ [CHR 0x22] @ ''.'')
       \<and> (trim manualName = [] \<longrightarrow>
            fst (handleManualCheckin clk manualName u s) =
              u\<lparr>message := ''Please type a name before checking in manually.''\<rparr>)"
proof (cases "trim manualName = []")
  case True
  then show ?thesis by (simp add: handleManualCheckin_def)
next
  case False
  obtain list where l: "GET_attendees s = Reply 200 list" "set list = set xs"
    using GET_attendees_readable [OF assms(1)] by blast
  have "find (nameMatches (toLowerCase (trim manualName))) list = None"
    using assms(2) l(2) by (simp add: find_None_iff nameMatches_def)
  then show ?thesis
    using False l(1) by (simp add: handleManualCheckin_def Let_def ok_def del: append.simps)
qed

theorem manual_checkin_without_match_witness:
  "readAttendees (attendeesFile exStore) = Some [exAda]
   \<and> \<not> includes_str (toLowerCase (fullNameOf exAda)) (toLowerCase (trim '' Grace ''))
   \<and> snd (handleManualCheckin \<lparr>atCheckin = 5, atLogId = 6, atLogStamp = 7\<rparr> '' Grace '' exUi exStore)
       = exStore
   \<and> scanState (fst (handleManualCheckin \<lparr>atCheckin = 5, atLogId = 6, atLogStamp = 7\<rparr>
         '' Grace '' exUi exStore)) = ErrorState"
proof -
  have r: "readAttendees (attendeesFile exStore) = Some [exAda]"
    by (simp add: readAttendees_def exStore_def)
  have t: "trim '' Grace '' = ''Grace''"
    by (simp add: trim_def trimStart_def trimEnd_def isWhiteSpace_def)
  have n: "toLowerCase (fullNameOf exAda) = ''ada lovelace''"
    by (simp add: fullNameOf_def exAda_def trim_def trimStart_def trimEnd_def isWhiteSpace_def
        toLowerCase_def lowerChar_def char_of_def bit_0)
  have g: "toLowerCase ''Grace'' = ''grace''"
    by (simp add: toLowerCase_def lowerChar_def char_of_def bit_0)
  have m: "\<not> includes_str (toLowerCase (fullNameOf exAda)) (toLowerCase (trim '' Grace ''))"
    by (simp add: t n g startsWith_def)
  then have all: "\<forall>a\<in>set [exAda].
      \<not> includes_str (toLowerCase (fullNameOf a)) (toLowerCase (trim '' Grace ''))" by simp
  have ne: "trim '' Grace '' \<noteq> []" by (simp add: t)
  show ?thesis
    using manual_checkin_without_match [OF r all,
        of "\<lparr>atCheckin = 5, atLogId = 6, atLogStamp = 7\<rparr>" exUi] r m ne
    by blast
qed

section \<open>C10: editing an attendee\<close>

lemma applyPatch_shape:
  "\<exists>f l e c ev. applyPatch payload a =
      a\<lparr>a_firstName := f, a_lastName := l, a_email := e, a_company := c, a_eventId := ev\<rparr>"
proof -
  let ?f = "case p_firstName payload of None \<Rightarrow> a_firstName a | Some v \<Rightarrow> v"
  let ?l = "case p_lastName payload of None \<Rightarrow> a_lastName a | Some v \<Rightarrow> v"
  let ?e = "case p_email payload of None \<Rightarrow> a_email a | Some v \<Rightarrow> v"
  let ?c = "case p_company payload of None \<Rightarrow> a_company a | Some v \<Rightarrow> v"
  let ?ev = "case p_eventId payload of None \<Rightarrow> a_eventId a | Some v \<Rightarrow> Some v"
  have "applyPatch payload a =
      a\<lparr>a_firstName := ?f, a_lastName := ?l, a_email := ?e, a_company := ?c, a_eventId := ?ev\<rparr>"
    by (simp add: applyPatch_def Let_def split: option.splits)
  then show ?thesis by blast
qed

lemma applyPatch_frame [simp]:
  "a_id (applyPatch payload a) = a_id a"
  "a_name (applyPatch payload a) = a_name a"
  "a_createdAt (applyPatch payload a) = a_createdAt a"
  "a_checkedIn (applyPatch payload a) = a_checkedIn a"
  "a_checkedInAt (applyPatch payload a) = a_checkedInAt a"
  by (simp_all add: applyPatch_def Let_def split: option.splits)

text \<open>
  C10. A \<open>PATCH /api/attendees/[id]\<close> that finds its attendee, at index \<open>i\<close> of the file,
  rewrites the attendees file with that one entry replaced and leaves the other files as
  they are. Every other entry is the same; in the entry itself \<open>id\<close>, \<open>createdAt\<close>,
  \<open>checkedIn\<close> and \<open>checkedInAt\<close> are the same, and it differs from the old entry in at
  most \<open>firstName\<close>, \<open>lastName\<close>, \<open>email\<close>, \<open>company\<close> and \<open>eventId\<close>.
\<close>

theorem patch_changes_only_editable_fields:
  assumes "attendeesFile s = Content xs"
    and "findIndex (\<lambda>a. a_id a = idOfParam rawId) xs = Some i"
  shows "\<exists>xs'. snd (PATCH_attendee rawId payload s) = s\<lparr>attendeesFile := Content xs'\<rparr>
           \<and> length xs' = length xs
           \<and> (\<forall>j. j \<noteq> i \<longrightarrow> xs' ! j = xs ! j)
           \<and> a_id (xs' ! i) = a_id (xs ! i)
           \<and> a_createdAt (xs' ! i) = a_createdAt (xs ! i)
           \<and> a_checkedIn (xs' ! i) = a_checkedIn (xs ! i)
           \<and> a_checkedInAt (xs' ! i) = a_checkedInAt (xs ! i)
           \<and> (\<exists>f l e c ev. xs' ! i = (xs ! i)\<lparr>a_firstName := f, a_lastName := l, a_email := e,
                                               a_company := c, a_eventId := ev\<rparr>)"
proof -
  let ?xs' = "xs[i := applyPatch payload (xs ! i)]"
  have i: "i < length xs" using findIndex_Some [OF assms(2)] by simp
  have "snd (PATCH_attendee rawId payload s) = s\<lparr>attendeesFile := Content ?xs'\<rparr>"
    using assms by (simp add: PATCH_attendee_def Let_def)
  moreover have "length ?xs' = length xs" by simp
  moreover have "\<forall>j. j \<noteq> i \<longrightarrow> ?xs' ! j = xs ! j" by simp
  moreover have at: "?xs' ! i = applyPatch payload (xs ! i)" using i by simp
  moreover have "\<exists>f l e c ev. ?xs' ! i = (xs ! i)\<lparr>a_firstName := f, a_lastName := l, a_email := e,
                                               a_company := c, a_eventId := ev\<rparr>"
    unfolding at by (rule applyPatch_shape)
  ultimately show ?thesis
    by (intro exI [of _ ?xs']) simp
qed

theorem patch_changes_only_editable_fields_witness:
  "findIndex (\<lambda>a. a_id a = idOfParam ''hemisphere:1700000000000'') [exAda] = Some 0
   \<and> (\<exists>xs'. snd (PATCH_attendee ''hemisphere:1700000000000''
                    \<lparr>p_firstName = Some ''Augusta'', p_lastName = None, p_email = Some ''ada@y.org'',
                      p_company = None, p_eventId = Some ''EVT-001''\<rparr> exStore)
              = exStore\<lparr>attendeesFile := Content xs'\<rparr>
            \<and> length xs' = 1
            \<and> a_id (xs' ! 0) = ''1700000000000''
            \<and> a_createdAt (xs' ! 0) = 1700000000000
            \<and> a_checkedIn (xs' ! 0) = False
            \<and> a_checkedInAt (xs' ! 0) = None)"
proof -
  have idp: "idOfParam ''hemisphere:1700000000000'' = ''1700000000000''"
    by (simp add: idOfParam_def pop_def orEmpty_def)
  have f: "findIndex (\<lambda>a. a_id a = idOfParam ''hemisphere:1700000000000'') [exAda] = Some 0"
    by (simp add: idp exAda_def)
  have a: "attendeesFile exStore = Content [exAda]" by (simp add: exStore_def)
  show ?thesis
    using patch_changes_only_editable_fields [OF a f,
        of "\<lparr>p_firstName = Some ''Augusta'', p_lastName = None, p_email = Some ''ada@y.org'',
             p_company = None, p_eventId = Some ''EVT-001''\<rparr>"] f
    by (auto simp: exAda_def)
qed

end
